theory Spec2Isabelle
  imports Main "HOL-Library.Word" "HOL-Library.Sublist"
begin

section \<open>JavaScript values used by the SDK\<close>

text \<open>
  A \<open>Buffer\<close> is a list of bytes. A \<open>BN\<close> (bn.js) is an unbounded integer.
  Strings are lists of 8-bit characters; all literals of the source are ASCII.

  A thrown JavaScript value is one of four kinds: \<open>Error msg\<close>, an error object whose
  \<open>message\<close> is the string \<open>msg\<close>; \<open>Thrown text\<close>, any other value that is neither
  \<open>null\<close> nor \<open>undefined\<close> and whose \<open>message\<close> is absent, known by its string rendering
  \<open>text\<close>; and the values \<open>null\<close> and \<open>undefined\<close> themselves, on which reading any
  property raises a type error. A value that carries a \<open>message\<close> which is not a string
  is not among them.
\<close>

type_synonym byte = "8 word"
type_synonym buffer = "byte list"

datatype error = Error string | Thrown string | ThrownNull | ThrownUndefined

definition thenE :: "error + 'a \<Rightarrow> ('a \<Rightarrow> error + 'b) \<Rightarrow> error + 'b" where
  "thenE r f = (case r of Inl e \<Rightarrow> Inl e | Inr v \<Rightarrow> f v)"

text \<open>Decimal rendering of numbers inside template literals.\<close>

fun string_of_nat :: "nat \<Rightarrow> string" where
  "string_of_nat n =
     (if n < 10 then [''0123456789'' ! n]
      else string_of_nat (n div 10) @ [''0123456789'' ! (n mod 10)])"

declare string_of_nat.simps [simp del]

definition string_of_int :: "int \<Rightarrow> string" where
  "string_of_int i = (if i < 0 then ''-'' @ string_of_nat (nat (- i)) else string_of_nat (nat i))"

text \<open>\<open>Buffer.from(str)\<close>: the bytes of an ASCII string.\<close>

definition bytes_of_string :: "string \<Rightarrow> buffer" where
  "bytes_of_string s = map (\<lambda>c. of_char c) s"

text \<open>\<open>buffer.slice(start, end)\<close> for \<open>start \<le> end\<close>.\<close>

definition slice :: "buffer \<Rightarrow> nat \<Rightarrow> nat \<Rightarrow> buffer" where
  "slice b start end' = take (end' - start) (drop start b)"

text \<open>Little-endian bytes of a natural number, and the number a byte list denotes.\<close>

fun le_bytes :: "nat \<Rightarrow> nat \<Rightarrow> buffer" where
  "le_bytes n 0 = []"
| "le_bytes n (Suc k) = word_of_nat (n mod 256) # le_bytes (n div 256) k"

fun le_value :: "buffer \<Rightarrow> nat" where
  "le_value [] = 0"
| "le_value (b # bs) = unat b + 256 * le_value bs"

text \<open>
  bn.js, \<open>x.toArrayLike(Buffer, 'le', len)\<close>: the magnitude of \<open>x\<close> (the sign is not
  written) in \<open>len\<close> little-endian bytes, zero padded; the library asserts that the number
  fits and throws otherwise. \<open>len\<close> is 8 or 16 at every call site.
\<close>

definition toArrayLike :: "int \<Rightarrow> nat \<Rightarrow> error + buffer" where
  "toArrayLike x len =
     (let n = nat \<bar>x\<bar> in
      if 256 ^ len \<le> n then Inl (Error ''byte array longer than desired length'')
      else Inr (le_bytes n len))"

text \<open>bn.js, \<open>new BN(bytes, 'le')\<close>.\<close>

definition BN_le :: "buffer \<Rightarrow> int" where
  "BN_le bs = int (le_value bs)"

text \<open>
  Node, \<open>buffer.readUInt32LE(offset)\<close> and \<open>Buffer.alloc(4)\<close> followed by
  \<open>writeUInt32LE(v)\<close>; both throw a range error outside their domain.
\<close>

definition readUInt32LE :: "buffer \<Rightarrow> nat \<Rightarrow> error + nat" where
  "readUInt32LE b offset =
     (if offset + 4 \<le> length b then Inr (le_value (slice b offset (offset + 4)))
      else Inl (Error ''ERR_OUT_OF_RANGE: offset''))"

definition writeUInt32LE :: "nat \<Rightarrow> error + buffer" where
  "writeUInt32LE v =
     (if v < 2 ^ 32 then Inr (le_bytes v 4) else Inl (Error ''ERR_OUT_OF_RANGE: value''))"

section \<open>The message codec (encoding.ts)\<close>

definition MAX_SENDER_SIZE :: nat where "MAX_SENDER_SIZE = 64"
definition MAX_RECIPIENT_SIZE :: nat where "MAX_RECIPIENT_SIZE = 64"
definition MAX_ON_CHAIN_DATA :: nat where "MAX_ON_CHAIN_DATA = 1024"
definition MAX_OFF_CHAIN_DATA :: nat where "MAX_OFF_CHAIN_DATA = 1024"

record DecodedViaMessage =
  txId :: int
  sourceChainId :: int
  destChainId :: int
  sender :: buffer
  recipient :: buffer
  onChainData :: buffer
  offChainData :: buffer

definition encodeLengthPrefixed :: "buffer \<Rightarrow> error + buffer" where
  "encodeLengthPrefixed data =
     thenE (writeUInt32LE (length data)) (\<lambda>lengthBuffer. Inr (lengthBuffer @ data))"

text \<open>
  The serialisation part of \<open>encodeViaMessage\<close> (the pushes onto \<open>encoded\<close> and the final
  \<open>Buffer.concat\<close>), in the order the source evaluates it.
\<close>

definition serializeViaMessage ::
  "int \<Rightarrow> int \<Rightarrow> int \<Rightarrow> buffer \<Rightarrow> buffer \<Rightarrow> buffer \<Rightarrow> buffer \<Rightarrow> error + buffer" where
  "serializeViaMessage tx src dst sndr rcpt onData offData =
     thenE (toArrayLike tx 16) (\<lambda>e1.
     thenE (toArrayLike src 8) (\<lambda>e2.
     thenE (toArrayLike dst 8) (\<lambda>e3.
     thenE (encodeLengthPrefixed sndr) (\<lambda>e4.
     thenE (encodeLengthPrefixed rcpt) (\<lambda>e5.
     thenE (encodeLengthPrefixed onData) (\<lambda>e6.
     thenE (encodeLengthPrefixed offData) (\<lambda>e7.
     Inr (e1 @ e2 @ e3 @ e4 @ e5 @ e6 @ e7))))))))"

definition encodeViaMessage ::
  "int \<Rightarrow> int \<Rightarrow> int \<Rightarrow> buffer \<Rightarrow> buffer \<Rightarrow> buffer \<Rightarrow> buffer \<Rightarrow> error + buffer" where
  "encodeViaMessage tx src dst sndr rcpt onData offData =
     (if length sndr > MAX_SENDER_SIZE then
        Inl (Error (''Sender too long: '' @ string_of_nat (length sndr) @ '' bytes (max ''
                    @ string_of_nat MAX_SENDER_SIZE @ '')''))
      else if length rcpt > MAX_RECIPIENT_SIZE then
        Inl (Error (''Recipient too long: '' @ string_of_nat (length rcpt) @ '' bytes (max ''
                    @ string_of_nat MAX_RECIPIENT_SIZE @ '')''))
      else if length onData > MAX_ON_CHAIN_DATA then
        Inl (Error (''On-chain data too large: '' @ string_of_nat (length onData)
                    @ '' bytes (max '' @ string_of_nat MAX_ON_CHAIN_DATA @ '')''))
      else if length offData > MAX_OFF_CHAIN_DATA then
        Inl (Error (''Off-chain data too large: '' @ string_of_nat (length offData)
                    @ '' bytes (max '' @ string_of_nat MAX_OFF_CHAIN_DATA @ '')''))
      else serializeViaMessage tx src dst sndr rcpt onData offData)"

text \<open>
  The decoder keeps a running \<open>offset\<close>; \<open>readBytes\<close> returns the bytes read together
  with the advanced offset.
\<close>

definition readBytes :: "buffer \<Rightarrow> nat \<Rightarrow> nat \<Rightarrow> string \<Rightarrow> error + (buffer \<times> nat)" where
  "readBytes encoded offset len fieldName =
     (if offset + len > length encoded then
        Inl (Error (''Buffer too short: cannot read '' @ fieldName @ '' (need ''
                    @ string_of_nat len @ '' bytes at offset '' @ string_of_nat offset
                    @ '', have '' @ string_of_nat (length encoded - offset) @ '')''))
      else Inr (slice encoded offset (offset + len), offset + len))"

definition decodeLengthPrefixed :: "buffer \<Rightarrow> nat \<Rightarrow> string \<Rightarrow> error + buffer" where
  "decodeLengthPrefixed b offset fieldName =
     (if offset + 4 > length b then
        Inl (Error (''Buffer too short: cannot read '' @ fieldName
                    @ '' length prefix at offset '' @ string_of_nat offset))
      else
        thenE (readUInt32LE b offset) (\<lambda>len.
          let dataOffset = offset + 4 in
          if dataOffset + len > length b then
            Inl (Error (''Buffer too short: cannot read '' @ fieldName @ '' data (need ''
                        @ string_of_nat len @ '' bytes at offset '' @ string_of_nat dataOffset
                        @ '', have '' @ string_of_nat (length b - dataOffset) @ '')''))
          else Inr (slice b dataOffset (dataOffset + len))))"

text \<open>
  \<open>decodeViaMessage\<close> up to, but not including, its final check: the decoded fields and the
  offset reached after the last field.
\<close>

definition decodeFields :: "buffer \<Rightarrow> error + (DecodedViaMessage \<times> nat)" where
  "decodeFields encoded =
     thenE (readBytes encoded 0 16 ''txId'') (\<lambda>(txIdBytes, o1).
     thenE (readBytes encoded o1 8 ''sourceChainId'') (\<lambda>(sourceChainIdBytes, o2).
     thenE (readBytes encoded o2 8 ''destChainId'') (\<lambda>(destChainIdBytes, o3).
     thenE (decodeLengthPrefixed encoded o3 ''sender'') (\<lambda>sndr.
     let o4 = o3 + (4 + length sndr) in
     thenE (decodeLengthPrefixed encoded o4 ''recipient'') (\<lambda>rcpt.
     let o5 = o4 + (4 + length rcpt) in
     thenE (decodeLengthPrefixed encoded o5 ''onChainData'') (\<lambda>onData.
     let o6 = o5 + (4 + length onData) in
     thenE (decodeLengthPrefixed encoded o6 ''offChainData'') (\<lambda>offData.
     let o7 = o6 + (4 + length offData) in
     Inr (\<lparr> txId = BN_le txIdBytes,
            sourceChainId = BN_le sourceChainIdBytes,
            destChainId = BN_le destChainIdBytes,
            sender = sndr, recipient = rcpt,
            onChainData = onData, offChainData = offData \<rparr>, o7))))))))"

definition decodeViaMessage :: "buffer \<Rightarrow> error + DecodedViaMessage" where
  "decodeViaMessage encoded =
     thenE (decodeFields encoded) (\<lambda>(m, offset).
       if offset \<noteq> length encoded then
         Inl (Error (''Buffer has extra data: decoded '' @ string_of_nat offset
                     @ '' bytes but buffer is '' @ string_of_nat (length encoded) @ '' bytes''))
       else Inr m)"

text \<open>The two families of decoder failures, told apart by the message text.\<close>

definition isTruncatedBuffer :: "error \<Rightarrow> bool" where
  "isTruncatedBuffer e =
     (case e of Error msg \<Rightarrow> prefix ''Buffer too short: cannot read '' msg | _ \<Rightarrow> False)"

definition isTrailingBytes :: "error \<Rightarrow> bool" where
  "isTrailingBytes e =
     (case e of Error msg \<Rightarrow> prefix ''Buffer has extra data: decoded '' msg | _ \<Rightarrow> False)"

section \<open>Message hashing and signature instructions (signatures.ts)\<close>

text \<open>
  js-sha3's \<open>keccak_256\<close> returns the digest as a lower-case hexadecimal string, and
  \<open>Buffer.from(hash, 'hex')\<close> reads it back. The Keccak permutation belongs to the
  library: the digest function \<open>kec\<close> is a parameter of the model.
\<close>

definition hex_digit :: "nat \<Rightarrow> char" where
  "hex_digit n = ''0123456789abcdef'' ! n"

definition hex_of_byte :: "byte \<Rightarrow> string" where
  "hex_of_byte b = [hex_digit (unat b div 16), hex_digit (unat b mod 16)]"

definition keccak_256 :: "(buffer \<Rightarrow> buffer) \<Rightarrow> buffer \<Rightarrow> string" where
  "keccak_256 kec msg = concat (map hex_of_byte (kec msg))"

definition hex_value :: "char \<Rightarrow> nat option" where
  "hex_value c =
     (let n = (of_char c :: nat) in
      if 48 \<le> n \<and> n \<le> 57 then Some (n - 48)
      else if 97 \<le> n \<and> n \<le> 102 then Some (n - 87)
      else if 65 \<le> n \<and> n \<le> 70 then Some (n - 55)
      else None)"

fun buffer_from_hex :: "string \<Rightarrow> buffer" where
  "buffer_from_hex (a # b # rest) =
     (case (hex_value a, hex_value b) of
        (Some x, Some y) \<Rightarrow> word_of_nat (16 * x + y) # buffer_from_hex rest
      | _ \<Rightarrow> [])"
| "buffer_from_hex _ = []"

definition createMessageHash ::
  "(buffer \<Rightarrow> buffer) \<Rightarrow> int \<Rightarrow> int \<Rightarrow> int \<Rightarrow> buffer \<Rightarrow> buffer \<Rightarrow> buffer \<Rightarrow> buffer
   \<Rightarrow> error + buffer" where
  "createMessageHash kec tx src dst sndr rcpt onData offData =
     thenE (encodeViaMessage tx src dst sndr rcpt onData offData) (\<lambda>encoded.
       let hash = keccak_256 kec encoded in Inr (buffer_from_hex hash))"

text \<open>
  A transaction instruction is either an Ed25519 verification instruction or a call of the
  gateway program, recorded with its method name, its arguments, its named accounts
  (\<open>None\<close> for an account passed as \<open>null\<close>) and its remaining accounts.
\<close>

datatype 'pk instruction =
    Ed25519Instruction 'pk buffer buffer
  | ProgramInstruction string DecodedViaMessage "(string \<times> 'pk option) list" "'pk list"

record 'pk MessageSignature =
  signature :: buffer
  signer :: 'pk

text \<open>
  web3.js, \<open>Ed25519Program.createInstructionWithPublicKey\<close>, asserts that the signature has
  64 bytes (a public key always has 32).
\<close>

definition createEd25519Instruction :: "buffer \<Rightarrow> 'pk \<Rightarrow> buffer \<Rightarrow> error + 'pk instruction" where
  "createEd25519Instruction sig publicKey msg =
     (if length sig \<noteq> 64 then
        Inl (Error (''Signature must be 64 bytes but received '' @ string_of_nat (length sig)
                    @ '' bytes''))
      else Inr (Ed25519Instruction publicKey msg sig))"

text \<open>The verification instruction of one signature over a message hash.\<close>

abbreviation verification :: "buffer \<Rightarrow> 'pk MessageSignature \<Rightarrow> 'pk instruction" where
  "verification messageHash sig \<equiv> Ed25519Instruction (signer sig) messageHash (signature sig)"

section \<open>Address derivation (pdas.ts)\<close>

definition CHAIN_ID_BYTES :: nat where "CHAIN_ID_BYTES = 8"
definition TX_ID_BYTES :: nat where "TX_ID_BYTES = 16"

datatype RegistryType = Via | Chain | Project

text \<open>The string a registry type is at run time.\<close>

fun registryTypeName :: "RegistryType \<Rightarrow> string" where
  "registryTypeName Via = ''via''"
| "registryTypeName Chain = ''chain''"
| "registryTypeName Project = ''project''"

definition validateChainId :: "int \<Rightarrow> error + unit" where
  "validateChainId chainId =
     (if chainId < 0 then Inl (Error (''Invalid chain ID: '' @ string_of_int chainId))
      else Inr ())"

definition validateTxId :: "int \<Rightarrow> error + unit" where
  "validateTxId tx =
     (if tx < 0 then Inl (Error (''Invalid TX ID: '' @ string_of_int tx)) else Inr ())"

definition registryTypeToDiscriminant :: "string \<Rightarrow> error + nat" where
  "registryTypeToDiscriminant registryType =
     (if registryType = ''via'' then Inr 0
      else if registryType = ''chain'' then Inr 1
      else if registryType = ''project'' then Inr 2
      else Inl (Error (''Invalid registry type: '' @ registryType)))"

text \<open>
  \<open>PublicKey.findProgramAddressSync(seeds, programId)\<close> is web3.js: the parameter \<open>fpa\<close>,
  of which only the address (not the bump) is kept. Each resolver is given \<open>fpa\<close> and the
  gateway program id that the class holds.
\<close>

definition getGatewayPda :: "(buffer list \<Rightarrow> 'pk \<Rightarrow> 'pk) \<Rightarrow> 'pk \<Rightarrow> int \<Rightarrow> error + 'pk" where
  "getGatewayPda fpa programId chainId =
     thenE (validateChainId chainId) (\<lambda>_.
     thenE (toArrayLike chainId CHAIN_ID_BYTES) (\<lambda>chainIdBytes.
     Inr (fpa [bytes_of_string ''gateway'', chainIdBytes] programId)))"

definition getSignerRegistryPda ::
  "(buffer list \<Rightarrow> 'pk \<Rightarrow> 'pk) \<Rightarrow> 'pk \<Rightarrow> RegistryType \<Rightarrow> int \<Rightarrow> error + 'pk" where
  "getSignerRegistryPda fpa programId registryType chainId =
     thenE (validateChainId chainId) (\<lambda>_.
     thenE (registryTypeToDiscriminant (registryTypeName registryType)) (\<lambda>discriminant.
     let discriminantBuffer = [word_of_nat discriminant] in
     thenE (toArrayLike chainId CHAIN_ID_BYTES) (\<lambda>chainIdBytes.
     Inr (fpa [bytes_of_string ''signer_registry'', discriminantBuffer, chainIdBytes]
            programId))))"

definition getCounterPda :: "(buffer list \<Rightarrow> 'pk \<Rightarrow> 'pk) \<Rightarrow> 'pk \<Rightarrow> int \<Rightarrow> error + 'pk" where
  "getCounterPda fpa programId sourceChain =
     thenE (validateChainId sourceChain) (\<lambda>_.
     thenE (toArrayLike sourceChain CHAIN_ID_BYTES) (\<lambda>chainIdBytes.
     Inr (fpa [bytes_of_string ''counter'', chainIdBytes] programId)))"

definition getTxIdPda :: "(buffer list \<Rightarrow> 'pk \<Rightarrow> 'pk) \<Rightarrow> 'pk \<Rightarrow> int \<Rightarrow> int \<Rightarrow> error + 'pk" where
  "getTxIdPda fpa programId sourceChain tx =
     thenE (validateChainId sourceChain) (\<lambda>_.
     thenE (validateTxId tx) (\<lambda>_.
     thenE (toArrayLike sourceChain CHAIN_ID_BYTES) (\<lambda>chainIdBytes.
     thenE (toArrayLike tx TX_ID_BYTES) (\<lambda>txIdBytes.
     Inr (fpa [bytes_of_string ''tx'', chainIdBytes, txIdBytes] programId)))))"

text \<open>The handler addresses take the gateway key's bytes (\<open>toBuffer\<close>) as a seed.\<close>

definition getGasConfigPda ::
  "(buffer list \<Rightarrow> 'pk \<Rightarrow> 'pk) \<Rightarrow> ('pk \<Rightarrow> buffer) \<Rightarrow> 'pk \<Rightarrow> 'pk \<Rightarrow> 'pk" where
  "getGasConfigPda fpa toBuffer gatewayKey gasHandler =
     fpa [bytes_of_string ''gas_config'', toBuffer gatewayKey] gasHandler"

definition getClientGasConfigPda ::
  "(buffer list \<Rightarrow> 'pk \<Rightarrow> 'pk) \<Rightarrow> ('pk \<Rightarrow> buffer) \<Rightarrow> 'pk \<Rightarrow> 'pk \<Rightarrow> 'pk \<Rightarrow> 'pk" where
  "getClientGasConfigPda fpa toBuffer gatewayKey clientProgram gasHandler =
     fpa [bytes_of_string ''client_gas_config'', toBuffer gatewayKey, toBuffer clientProgram]
       gasHandler"

definition getGasPoolPda ::
  "(buffer list \<Rightarrow> 'pk \<Rightarrow> 'pk) \<Rightarrow> ('pk \<Rightarrow> buffer) \<Rightarrow> 'pk \<Rightarrow> 'pk \<Rightarrow> 'pk" where
  "getGasPoolPda fpa toBuffer gatewayKey gasHandler =
     fpa [bytes_of_string ''gas_pool'', toBuffer gatewayKey] gasHandler"

definition deriveDecodedMessagePda ::
  "(buffer list \<Rightarrow> 'pk \<Rightarrow> 'pk) \<Rightarrow> int \<Rightarrow> 'pk \<Rightarrow> error + 'pk" where
  "deriveDecodedMessagePda fpa tx clientProgram =
     thenE (validateTxId tx) (\<lambda>_.
     thenE (toArrayLike tx 8) (\<lambda>txIdBytes.
     Inr (fpa [bytes_of_string ''decoded'', txIdBytes] clientProgram)))"

section \<open>The SDK operations\<close>

text \<open>
  Everything an operation does to the outside is recorded as an event: a query for an
  account, the construction of the main instruction through the program's method builder,
  a submission of an instruction list (through the provider, or as one run of the
  versioned-transaction body), and a back-off sleep in milliseconds. Console output is
  not recorded.
\<close>

datatype 'pk event =
    GetAccountInfo 'pk
  | InstructionBuilt "'pk instruction"
  | SendAndConfirm "'pk instruction list"
  | V0Submission "'pk instruction list"
  | Slept nat

text \<open>
  The SDK object: its libraries and collaborators, the identities it holds, and the outcome
  of each network interaction. \<open>sendV0\<close> gives the outcome of the versioned-transaction body
  (fetch the latest blockhash, compile, sign, send, confirm) on its \<open>n\<close>-th run.
\<close>

record 'pk ViaLabsSDK =
  findProgramAddressSync :: "buffer list \<Rightarrow> 'pk \<Rightarrow> 'pk"
  keyBytes :: "'pk \<Rightarrow> buffer"
  keccak :: "buffer \<Rightarrow> buffer"
  programId :: 'pk
  walletPublicKey :: 'pk
  gasHandlerProgramId :: 'pk
  SYSVAR_INSTRUCTIONS_PUBKEY :: 'pk
  systemProgramId :: 'pk
  lookupTableLoaded :: bool
  getAccountInfo :: "'pk \<Rightarrow> error + bool option"
  sendAndConfirm :: "'pk instruction list \<Rightarrow> error + string"
  sendV0 :: "nat \<Rightarrow> 'pk instruction list \<Rightarrow> error + string"

text \<open>A failure before anything has happened outside.\<close>

definition orFail :: "error + 'a \<Rightarrow> ('a \<Rightarrow> (error + 'b) \<times> 'ev list) \<Rightarrow> (error + 'b) \<times> 'ev list" where
  "orFail r f = (case r of Inl e \<Rightarrow> (Inl e, []) | Inr v \<Rightarrow> f v)"

subsection \<open>Retry\<close>

definition toLowerCase :: "string \<Rightarrow> string" where
  "toLowerCase s =
     map (\<lambda>c. if 65 \<le> (of_char c :: nat) \<and> (of_char c :: nat) \<le> 90
               then char_of ((of_char c :: nat) + 32) else c) s"

text \<open>\<open>s.includes(sub)\<close>.\<close>

definition includes' :: "string \<Rightarrow> string \<Rightarrow> bool" where
  "includes' s sub = sublist sub s"

definition nonRetryableErrors :: "string list" where
  "nonRetryableErrors =
     [''already in use'', ''invalid'', ''insufficient'', ''TxIdAlreadyExists'',
      ''TxIdNotFound'', ''SystemDisabled'', ''SignerNotRegistered'']"

text \<open>
  The catch block reads \<open>error.message\<close> of the caught value. On \<open>null\<close> and on
  \<open>undefined\<close> that read raises a type error (in V8's wording), which leaves the catch block
  and the loop; on every other value it does not.
\<close>

definition messageReadError :: "error \<Rightarrow> error option" where
  "messageReadError err =
     (case err of
        ThrownNull \<Rightarrow>
          Some (Error (''Cannot read properties of null (reading '' @ [CHR 0x27] @ ''message''
                       @ [CHR 0x27] @ '')''))
      | ThrownUndefined \<Rightarrow>
          Some (Error (''Cannot read properties of undefined (reading '' @ [CHR 0x27]
                       @ ''message'' @ [CHR 0x27] @ '')''))
      | _ \<Rightarrow> None)"

text \<open>
  \<open>error.message?.toLowerCase().includes(...)\<close>, once the message has been read: a value
  without a message is never non-retryable.
\<close>

definition isNonRetryable :: "error \<Rightarrow> bool" where
  "isNonRetryable err =
     (case err of
        Error msg \<Rightarrow> list_ex (\<lambda>e. includes' (toLowerCase msg) (toLowerCase e)) nonRetryableErrors
      | _ \<Rightarrow> False)"

text \<open>
  \<open>error.message || error\<close> and \<open>lastError?.message || lastError\<close> inside a template
  literal: the message unless it is empty or absent, else the string rendering of the
  thrown value (\<open>Error\<close> for an error object with an empty message).
\<close>

definition messageOrError :: "error \<Rightarrow> string" where
  "messageOrError err =
     (case err of
        Error msg \<Rightarrow> (if msg = [] then ''Error'' else msg)
      | Thrown t \<Rightarrow> t
      | ThrownNull \<Rightarrow> ''null''
      | ThrownUndefined \<Rightarrow> ''undefined'')"

text \<open>
  The loop of \<open>executeWithRetry\<close> from a given attempt on. \<open>operation n\<close> is the outcome
  and the events of the \<open>n\<close>-th call of the operation.
\<close>

function retryLoop ::
  "string \<Rightarrow> (nat \<Rightarrow> (error + 'a) \<times> 'pk event list) \<Rightarrow> nat \<Rightarrow> nat \<Rightarrow> error option
   \<Rightarrow> (error + 'a) \<times> 'pk event list" where
  "retryLoop name operation maxRetries attempt lastError =
     (if attempt \<le> maxRetries then
        (case operation attempt of
           (Inr v, evs) \<Rightarrow> (Inr v, evs)
         | (Inl err, evs) \<Rightarrow>
             (case messageReadError err of
                Some typeError \<Rightarrow> (Inl typeError, evs)
              | None \<Rightarrow>
                  if isNonRetryable err then
                    (Inl (Error (name @ '' failed: '' @ messageOrError err)), evs)
                  else if attempt < maxRetries then
                    (let backoffMs = 1000 * 2 ^ (attempt - 1);
                         r = retryLoop name operation maxRetries (attempt + 1) (Some err)
                     in (fst r, evs @ [Slept backoffMs] @ snd r))
                  else
                    (let r = retryLoop name operation maxRetries (attempt + 1) (Some err)
                     in (fst r, evs @ snd r))))
      else
        (Inl (Error (name @ '' failed after '' @ string_of_nat maxRetries @ '' attempts: ''
                     @ (case lastError of None \<Rightarrow> ''undefined''
                        | Some e \<Rightarrow> messageOrError e))), []))"
  by pat_completeness auto
termination
  by (relation "measure (\<lambda>(name, operation, maxRetries, attempt, lastError).
                  Suc maxRetries - attempt)") auto

declare retryLoop.simps [simp del]

definition executeWithRetry ::
  "string \<Rightarrow> (nat \<Rightarrow> (error + 'a) \<times> 'pk event list) \<Rightarrow> nat \<Rightarrow> (error + 'a) \<times> 'pk event list" where
  "executeWithRetry name operation maxRetries = retryLoop name operation maxRetries 1 None"

definition executeV0Transaction ::
  "'pk ViaLabsSDK \<Rightarrow> string \<Rightarrow> 'pk instruction list \<Rightarrow> nat \<Rightarrow> (error + string) \<times> 'pk event list" where
  "executeV0Transaction sdk name instructions maxRetries =
     (if \<not> lookupTableLoaded sdk then
        (Inl (Error ''Lookup table not loaded. Call loadLookupTable() first.''), [])
      else
        executeWithRetry name
          (\<lambda>n. (sendV0 sdk n instructions, [V0Submission instructions])) maxRetries)"

subsection \<open>Submitting a message with signatures\<close>

text \<open>The loop \<open>for (const sig of signatures)\<close> that adds one instruction per signature.\<close>

fun ed25519Instructions :: "'pk MessageSignature list \<Rightarrow> buffer \<Rightarrow> error + 'pk instruction list" where
  "ed25519Instructions [] messageHash = Inr []"
| "ed25519Instructions (sig # sigs) messageHash =
     thenE (createEd25519Instruction (signature sig) (signer sig) messageHash) (\<lambda>i.
     thenE (ed25519Instructions sigs messageHash) (\<lambda>rest. Inr (i # rest)))"

definition MAX_SIGNATURES_V0 :: nat where "MAX_SIGNATURES_V0 = 3"

definition tooManySignatures :: "nat \<Rightarrow> error" where
  "tooManySignatures n =
     Error (''Too many signatures for V0 transaction: '' @ string_of_nat n @ '' provided, ''
            @ ''maximum '' @ string_of_nat MAX_SIGNATURES_V0 @ '' supported. V0 transactions ''
            @ ''have a 1232 byte limit, and each Ed25519 instruction uses ~200 bytes.'')"

definition viaMessage ::
  "int \<Rightarrow> int \<Rightarrow> int \<Rightarrow> buffer \<Rightarrow> buffer \<Rightarrow> buffer \<Rightarrow> buffer \<Rightarrow> DecodedViaMessage" where
  "viaMessage tx src dst sndr rcpt onData offData =
     \<lparr> txId = tx, sourceChainId = src, destChainId = dst, sender = sndr, recipient = rcpt,
       onChainData = onData, offChainData = offData \<rparr>"

text \<open>
  The program's method builder (Anchor), \<open>.accountsPartial(accounts).instruction()\<close>. Each
  account that the interface description of the gateway program (its IDL type) lists for
  the instruction has to be set before the instruction is built. An account is set when the
  caller passes a key for it; when the caller passes \<open>null\<close> and the description marks it
  \<open>optional\<close> (the program id then stands in for it); or when the builder can fill it by
  itself: from a fixed \<open>address\<close>, as the \<open>signer\<close> (the provider's wallet), or as a
  \<open>pda\<close> whose seeds are constants and arguments. The first account, in the order of the
  description, that is not set makes \<open>.instruction()\<close> throw. The accounts are checked
  before the arguments are serialised; the instruction is kept as the method name, the
  arguments and the accounts it was built from, not as the bytes of its data.
\<close>

datatype idlAccount = IdlAccount (accountName: string) (isOptional: bool) (isFilled: bool)

text \<open>
  The accounts of \<open>createTxPda\<close> and of \<open>processMessage\<close> as the description lists them.
  The \<open>gateway\<close> address has a seed read from the gateway account itself, so the builder
  cannot fill it; \<open>decodedMessagePda\<close> is neither optional nor given an address or seeds.
\<close>

definition createTxPda_idl :: "idlAccount list" where
  "createTxPda_idl =
     [IdlAccount ''txIdPda'' False True,
      IdlAccount ''counterPda'' False True,
      IdlAccount ''relayer'' False True,
      IdlAccount ''instructions'' False True,
      IdlAccount ''systemProgram'' False True]"

definition processMessage_idl :: "idlAccount list" where
  "processMessage_idl =
     [IdlAccount ''gateway'' False False,
      IdlAccount ''txIdPda'' False True,
      IdlAccount ''viaRegistry'' False True,
      IdlAccount ''chainRegistry'' False True,
      IdlAccount ''projectRegistry'' True False,
      IdlAccount ''relayer'' False True,
      IdlAccount ''decodedMessagePda'' False False,
      IdlAccount ''clientConfig'' True False,
      IdlAccount ''instructions'' False True,
      IdlAccount ''systemProgram'' False True,
      IdlAccount ''gasHandlerProgram'' True False,
      IdlAccount ''gasConfig'' True False,
      IdlAccount ''clientGasConfig'' True False,
      IdlAccount ''gasPool'' True False]"

definition accountIsSet :: "idlAccount \<Rightarrow> (string \<times> 'pk option) list \<Rightarrow> bool" where
  "accountIsSet acc accounts =
     (case map_of accounts (accountName acc) of
        Some (Some key) \<Rightarrow> True
      | Some None \<Rightarrow> isOptional acc \<or> isFilled acc
      | None \<Rightarrow> isFilled acc)"

fun validateAccounts :: "idlAccount list \<Rightarrow> (string \<times> 'pk option) list \<Rightarrow> error + unit" where
  "validateAccounts [] accounts = Inr ()"
| "validateAccounts (acc # rest) accounts =
     (if accountIsSet acc accounts then validateAccounts rest accounts
      else Inl (Error (''Account `'' @ accountName acc @ ''` not provided.'')))"

definition anchorInstruction ::
  "idlAccount list \<Rightarrow> string \<Rightarrow> DecodedViaMessage \<Rightarrow> (string \<times> 'pk option) list \<Rightarrow> 'pk list
   \<Rightarrow> error + 'pk instruction" where
  "anchorInstruction idl methodName args accounts remaining =
     thenE (validateAccounts idl accounts) (\<lambda>_.
       Inr (ProgramInstruction methodName args accounts remaining))"

text \<open>The accounts object of the \<open>createTxPda\<close> instruction (both variants).\<close>

definition createTxPdaAccounts ::
  "'pk ViaLabsSDK \<Rightarrow> int \<Rightarrow> int \<Rightarrow> error + (string \<times> 'pk option) list" where
  "createTxPdaAccounts sdk tx src =
     thenE (getTxIdPda (findProgramAddressSync sdk) (programId sdk) src tx) (\<lambda>txIdPda.
     thenE (getCounterPda (findProgramAddressSync sdk) (programId sdk) src) (\<lambda>counterPda.
     Inr [(''txIdPda'', Some txIdPda), (''counterPda'', Some counterPda),
          (''relayer'', Some (walletPublicKey sdk)),
          (''instructions'', Some (SYSVAR_INSTRUCTIONS_PUBKEY sdk))]))"

definition createTxPdaWithSignatures ::
  "'pk ViaLabsSDK \<Rightarrow> int \<Rightarrow> int \<Rightarrow> int \<Rightarrow> buffer \<Rightarrow> buffer \<Rightarrow> buffer \<Rightarrow> buffer
   \<Rightarrow> 'pk MessageSignature list \<Rightarrow> (error + string) \<times> 'pk event list" where
  "createTxPdaWithSignatures sdk tx src dst sndr rcpt onData offData signatures =
     orFail (createMessageHash (keccak sdk) tx src dst sndr rcpt onData offData) (\<lambda>messageHash.
     orFail (ed25519Instructions signatures messageHash) (\<lambda>verifications.
     orFail (createTxPdaAccounts sdk tx src) (\<lambda>accounts.
     orFail (anchorInstruction createTxPda_idl ''createTxPda''
               (viaMessage tx src dst sndr rcpt onData offData) accounts []) (\<lambda>instruction.
       let transaction = verifications @ [instruction]
       in (sendAndConfirm sdk transaction,
           [InstructionBuilt instruction, SendAndConfirm transaction])))))"

definition createTxPdaWithSignaturesV0 ::
  "'pk ViaLabsSDK \<Rightarrow> int \<Rightarrow> int \<Rightarrow> int \<Rightarrow> buffer \<Rightarrow> buffer \<Rightarrow> buffer \<Rightarrow> buffer
   \<Rightarrow> 'pk MessageSignature list \<Rightarrow> (error + string) \<times> 'pk event list" where
  "createTxPdaWithSignaturesV0 sdk tx src dst sndr rcpt onData offData signatures =
     (if length signatures > MAX_SIGNATURES_V0 then
        (Inl (tooManySignatures (length signatures)), [])
      else if length signatures = 0 then
        (Inl (Error ''At least one signature is required''), [])
      else
        orFail (createMessageHash (keccak sdk) tx src dst sndr rcpt onData offData) (\<lambda>messageHash.
        orFail (ed25519Instructions signatures messageHash) (\<lambda>verifications.
        orFail (createTxPdaAccounts sdk tx src) (\<lambda>accounts.
        orFail (anchorInstruction createTxPda_idl ''createTxPda''
                  (viaMessage tx src dst sndr rcpt onData offData) accounts [])
          (\<lambda>mainInstruction.
          let instructions = verifications @ [mainInstruction];
              r = executeV0Transaction sdk ''createTxPda'' instructions 3
          in (fst r, InstructionBuilt mainInstruction # snd r))))))"

text \<open>The accounts object of \<open>processMessageWithSignatures\<close>, in evaluation order.\<close>

definition processMessageAccounts ::
  "'pk ViaLabsSDK \<Rightarrow> int \<Rightarrow> int \<Rightarrow> int \<Rightarrow> bool \<Rightarrow> error + (string \<times> 'pk option) list" where
  "processMessageAccounts sdk tx src dst includeProjectRegistry =
     (let fpa = findProgramAddressSync sdk; pid = programId sdk;
          gasHandler = gasHandlerProgramId sdk in
      thenE (getGatewayPda fpa pid dst) (\<lambda>gateway.
      thenE (getTxIdPda fpa pid src tx) (\<lambda>txIdPda.
      thenE (getSignerRegistryPda fpa pid Via dst) (\<lambda>viaRegistry.
      thenE (getSignerRegistryPda fpa pid Chain src) (\<lambda>chainRegistry.
      thenE (getGatewayPda fpa pid dst) (\<lambda>gatewayForGasConfig.
      thenE (getGatewayPda fpa pid dst) (\<lambda>gatewayForGasPool.
      thenE (if includeProjectRegistry
             then thenE (getSignerRegistryPda fpa pid Project dst) (\<lambda>p. Inr (Some p))
             else Inr None) (\<lambda>projectRegistry.
      Inr [(''gateway'', Some gateway), (''txIdPda'', Some txIdPda),
           (''viaRegistry'', Some viaRegistry), (''chainRegistry'', Some chainRegistry),
           (''relayer'', Some (walletPublicKey sdk)),
           (''instructions'', Some (SYSVAR_INSTRUCTIONS_PUBKEY sdk)),
           (''systemProgram'', Some (systemProgramId sdk)),
           (''gasHandlerProgram'', Some gasHandler),
           (''gasConfig'',
              Some (getGasConfigPda fpa (keyBytes sdk) gatewayForGasConfig gasHandler)),
           (''clientGasConfig'', None),
           (''gasPool'', Some (getGasPoolPda fpa (keyBytes sdk) gatewayForGasPool gasHandler)),
           (''projectRegistry'', projectRegistry)]))))))))"

definition processMessageWithSignatures ::
  "'pk ViaLabsSDK \<Rightarrow> int \<Rightarrow> int \<Rightarrow> int \<Rightarrow> buffer \<Rightarrow> buffer \<Rightarrow> buffer \<Rightarrow> buffer
   \<Rightarrow> 'pk MessageSignature list \<Rightarrow> bool \<Rightarrow> (error + string) \<times> 'pk event list" where
  "processMessageWithSignatures sdk tx src dst sndr rcpt onData offData signatures
       includeProjectRegistry =
     orFail (createMessageHash (keccak sdk) tx src dst sndr rcpt onData offData) (\<lambda>messageHash.
     orFail (ed25519Instructions signatures messageHash) (\<lambda>verifications.
     orFail (processMessageAccounts sdk tx src dst includeProjectRegistry) (\<lambda>accounts.
     orFail (anchorInstruction processMessage_idl ''processMessage''
               (viaMessage tx src dst sndr rcpt onData offData) accounts []) (\<lambda>instruction.
       let transaction = verifications @ [instruction]
       in (sendAndConfirm sdk transaction,
           [InstructionBuilt instruction, SendAndConfirm transaction])))))"

text \<open>
  \<open>processMessageWithSignaturesV0\<close>, the derivation of the client accounts from the first
  remaining account: the decoded-message address, the client configuration address and the
  client program.
\<close>

definition clientAccounts ::
  "'pk ViaLabsSDK \<Rightarrow> int \<Rightarrow> 'pk list option \<Rightarrow> error + ('pk option \<times> 'pk option \<times> 'pk option)" where
  "clientAccounts sdk tx remainingAccounts =
     (case remainingAccounts of
        Some (clientProgram # _) \<Rightarrow>
          (let clientConfigPda =
                 findProgramAddressSync sdk [bytes_of_string ''client_config''] clientProgram in
           thenE (toArrayLike tx 16) (\<lambda>txIdBytes.
           let decodedMessagePda =
                 findProgramAddressSync sdk [bytes_of_string ''decoded'', txIdBytes] clientProgram
           in Inr (Some decodedMessagePda, Some clientConfigPda, Some clientProgram)))
      | _ \<Rightarrow> Inr (None, None, None))"

text \<open>
  The gas handler accounts: all absent unless the account query answers with an executable
  account; any exception inside the \<open>try\<close> block leaves them absent.
\<close>

definition gasHandlerAccounts ::
  "'pk ViaLabsSDK \<Rightarrow> int \<Rightarrow> 'pk option \<Rightarrow> (string \<times> 'pk option) list" where
  "gasHandlerAccounts sdk dst clientProgram =
     (let absent = [(''gasHandlerProgram'', None), (''gasConfig'', None),
                    (''clientGasConfig'', None), (''gasPool'', None)];
          fpa = findProgramAddressSync sdk; gasHandler = gasHandlerProgramId sdk in
      case getAccountInfo sdk gasHandler of
        Inr (Some True) \<Rightarrow>
          (case getGatewayPda fpa (programId sdk) dst of
             Inl _ \<Rightarrow> absent
           | Inr gateway \<Rightarrow>
               [(''gasHandlerProgram'', Some gasHandler),
                (''gasConfig'', Some (getGasConfigPda fpa (keyBytes sdk) gateway gasHandler)),
                (''clientGasConfig'',
                   map_option (\<lambda>c. getClientGasConfigPda fpa (keyBytes sdk) gateway c gasHandler)
                     clientProgram),
                (''gasPool'', Some (getGasPoolPda fpa (keyBytes sdk) gateway gasHandler))])
      | _ \<Rightarrow> absent)"

definition processMessageV0Accounts ::
  "'pk ViaLabsSDK \<Rightarrow> int \<Rightarrow> int \<Rightarrow> int \<Rightarrow> bool \<Rightarrow> 'pk option \<Rightarrow> 'pk option
   \<Rightarrow> (string \<times> 'pk option) list \<Rightarrow> error + (string \<times> 'pk option) list" where
  "processMessageV0Accounts sdk tx src dst includeProjectRegistry decodedMessagePda
       clientConfigPda gasAccounts =
     (let fpa = findProgramAddressSync sdk; pid = programId sdk in
      thenE (getGatewayPda fpa pid dst) (\<lambda>gateway.
      thenE (getTxIdPda fpa pid src tx) (\<lambda>txIdPda.
      thenE (getSignerRegistryPda fpa pid Via dst) (\<lambda>viaRegistry.
      thenE (getSignerRegistryPda fpa pid Chain src) (\<lambda>chainRegistry.
      thenE (if includeProjectRegistry
             then thenE (getSignerRegistryPda fpa pid Project dst) (\<lambda>p. Inr (Some p))
             else Inr None) (\<lambda>projectRegistry.
      Inr ([(''gateway'', Some gateway), (''txIdPda'', Some txIdPda),
            (''viaRegistry'', Some viaRegistry), (''chainRegistry'', Some chainRegistry),
            (''projectRegistry'', projectRegistry),
            (''relayer'', Some (walletPublicKey sdk)),
            (''decodedMessagePda'', decodedMessagePda),
            (''clientConfig'', clientConfigPda),
            (''instructions'', Some (SYSVAR_INSTRUCTIONS_PUBKEY sdk)),
            (''systemProgram'', Some (systemProgramId sdk))] @ gasAccounts)))))))"

definition processMessageWithSignaturesV0 ::
  "'pk ViaLabsSDK \<Rightarrow> int \<Rightarrow> int \<Rightarrow> int \<Rightarrow> buffer \<Rightarrow> buffer \<Rightarrow> buffer \<Rightarrow> buffer
   \<Rightarrow> 'pk MessageSignature list \<Rightarrow> bool \<Rightarrow> 'pk list option
   \<Rightarrow> (error + string) \<times> 'pk event list" where
  "processMessageWithSignaturesV0 sdk tx src dst sndr rcpt onData offData signatures
       includeProjectRegistry remainingAccounts =
     (if length signatures > MAX_SIGNATURES_V0 then
        (Inl (tooManySignatures (length signatures)), [])
      else if length signatures = 0 then
        (Inl (Error ''At least one signature is required''), [])
      else
        orFail (createMessageHash (keccak sdk) tx src dst sndr rcpt onData offData) (\<lambda>messageHash.
        orFail (ed25519Instructions signatures messageHash) (\<lambda>verifications.
        orFail (clientAccounts sdk tx remainingAccounts)
          (\<lambda>(decodedMessagePda, clientConfigPda, clientProgram).
          let gasAccounts = gasHandlerAccounts sdk dst clientProgram;
              query = GetAccountInfo (gasHandlerProgramId sdk)
          in case processMessageV0Accounts sdk tx src dst includeProjectRegistry
                    decodedMessagePda clientConfigPda gasAccounts of
               Inl e \<Rightarrow> (Inl e, [query])
             | Inr accounts \<Rightarrow>
                 (case anchorInstruction processMessage_idl ''processMessage''
                         (viaMessage tx src dst sndr rcpt onData offData) accounts
                         (case remainingAccounts of Some ra \<Rightarrow> ra | None \<Rightarrow> []) of
                    Inl e \<Rightarrow> (Inl e, [query])
                  | Inr mainInstruction \<Rightarrow>
                      (let instructions = verifications @ [mainInstruction];
                           r = executeV0Transaction sdk ''processMessage'' instructions 3
                       in (fst r, query # InstructionBuilt mainInstruction # snd r)))))))"

section \<open>An example environment\<close>

text \<open>
  For evaluating the operations on concrete inputs: an SDK in which an address is written
  as the list of seeds it was derived from followed by the owning program, every network
  call succeeds, no gas handler account exists and the lookup table is loaded.
\<close>

definition exampleSDK :: "buffer list ViaLabsSDK" where
  "exampleSDK =
     \<lparr> findProgramAddressSync = (\<lambda>seeds program. seeds @ program),
       keyBytes = concat,
       keccak = (\<lambda>x. take 32 (x @ replicate 32 0)),
       programId = [bytes_of_string ''gateway''],
       walletPublicKey = [bytes_of_string ''wallet''],
       gasHandlerProgramId = [bytes_of_string ''gas''],
       SYSVAR_INSTRUCTIONS_PUBKEY = [bytes_of_string ''sysvar''],
       systemProgramId = [bytes_of_string ''system''],
       lookupTableLoaded = True,
       getAccountInfo = (\<lambda>key. Inr None),
       sendAndConfirm = (\<lambda>transaction. Inr ''ok''),
       sendV0 = (\<lambda>n instructions. Inr ''ok'') \<rparr>"

section \<open>Properties of the codec\<close>

subsection \<open>Little-endian numbers\<close>

lemma length_le_bytes [simp]: "length (le_bytes n k) = k"
  by (induction k arbitrary: n) auto

lemma le_value_le_bytes: "n < 256 ^ k \<Longrightarrow> le_value (le_bytes n k) = n"
proof (induction k arbitrary: n)
  case 0
  then show ?case by simp
next
  case (Suc k)
  have "n div 256 < 256 ^ k"
    using Suc.prems by (simp add: less_mult_imp_div_less mult.commute)
  then have "le_value (le_bytes (n div 256) k) = n div 256" by (rule Suc.IH)
  moreover have "unat (word_of_nat (n mod 256) :: byte) = n mod 256"
    by (simp add: unat_of_nat)
  ultimately show ?case by simp
qed

lemma le_value_bound: "le_value bs < 256 ^ length bs"
proof (induction bs)
  case Nil
  then show ?case by simp
next
  case (Cons b bs)
  have "unat b < 256" using unsigned_less [of b, where ?'a = nat] by simp
  with Cons show ?case by simp
qed

lemma le_bytes_le_value: "le_bytes (le_value bs) (length bs) = bs"
proof (induction bs)
  case Nil
  then show ?case by simp
next
  case (Cons b bs)
  have "unat b < 256" using unsigned_less [of b, where ?'a = nat] by simp
  with Cons show ?case by simp
qed

lemma toArrayLike_fits:
  "0 \<le> x \<Longrightarrow> x < 256 ^ k \<Longrightarrow> toArrayLike x k = Inr (le_bytes (nat x) k)"
  by (simp add: toArrayLike_def Let_def nat_less_iff not_le)

lemma readBytes_ok:
  "offset + len \<le> length b \<Longrightarrow>
   readBytes b offset len nm = Inr (take len (drop offset b), offset + len)"
  by (simp add: readBytes_def slice_def)

lemma decodeLengthPrefixed_ok:
  assumes "offset + 4 \<le> length b"
    and "offset + 4 + le_value (take 4 (drop offset b)) \<le> length b"
  shows "decodeLengthPrefixed b offset nm =
         Inr (take (le_value (take 4 (drop offset b))) (drop (offset + 4) b))"
  using assms by (simp add: decodeLengthPrefixed_def readUInt32LE_def thenE_def slice_def Let_def)

lemma decodeFields_layout:
  assumes "length t = 16" "length s = 8" "length d = 8"
    and "length a < 2 ^ 32" "length b < 2 ^ 32" "length c < 2 ^ 32" "length e < 2 ^ 32"
  shows "decodeFields (t @ s @ d @ (le_bytes (length a) 4 @ a) @ (le_bytes (length b) 4 @ b)
                       @ (le_bytes (length c) 4 @ c) @ (le_bytes (length e) 4 @ e) @ extra) =
         Inr (\<lparr> txId = BN_le t, sourceChainId = BN_le s, destChainId = BN_le d,
                sender = a, recipient = b, onChainData = c, offChainData = e \<rparr>,
              48 + length a + length b + length c + length e)"
  using assms
  by (simp add: decodeFields_def readBytes_ok decodeLengthPrefixed_ok thenE_def Let_def
      le_value_le_bytes)

lemma readBytes_Inr:
  assumes "readBytes b offset len nm = Inr (x, offset')" and "offset \<le> length b"
  shows "offset' = offset + len \<and> offset' \<le> length b \<and> length x = len
         \<and> take offset' b = take offset b @ x"
proof -
  from assms(1) have le: "offset + len \<le> length b"
    and x: "x = take len (drop offset b)" and o: "offset' = offset + len"
    by (auto simp: readBytes_def slice_def split: if_splits)
  have "take (offset + len) b = take offset b @ take len (drop offset b)"
    by (simp add: take_add)
  with le x o show ?thesis by simp
qed

lemma decodeLengthPrefixed_Inr:
  assumes "decodeLengthPrefixed b offset nm = Inr x"
  shows "offset + 4 + length x \<le> length b \<and> length x < 2 ^ 32
         \<and> take (offset + 4 + length x) b = take offset b @ le_bytes (length x) 4 @ x"
proof -
  define p where "p = take 4 (drop offset b)"
  from assms have le4: "offset + 4 \<le> length b"
    by (auto simp: decodeLengthPrefixed_def split: if_splits)
  then have lp: "length p = 4" by (simp add: p_def)
  from assms le4 have le: "offset + 4 + le_value p \<le> length b"
    and x: "x = take (le_value p) (drop (offset + 4) b)"
    by (auto simp: decodeLengthPrefixed_def readUInt32LE_def thenE_def slice_def Let_def p_def
        split: if_splits)
  from le x have lx: "length x = le_value p" by simp
  have "le_value p < 256 ^ length p" by (rule le_value_bound)
  with lp have bnd: "le_value p < 2 ^ 32" by simp
  have pb: "le_bytes (length x) 4 = p" using le_bytes_le_value [of p] lp lx by simp
  have "take (offset + 4 + length x) b = take (offset + 4) b @ x"
    using x lx by (simp add: take_add)
  moreover have "take (offset + 4) b = take offset b @ p" by (simp add: take_add p_def)
  ultimately show ?thesis using le lx bnd pb by simp
qed

lemma toArrayLike_BN_le: "length t = k \<Longrightarrow> toArrayLike (BN_le t) k = Inr t"
  using le_value_bound [of t] le_bytes_le_value [of t]
  by (simp add: toArrayLike_def BN_le_def Let_def not_le)

lemma encodeLengthPrefixed_ok:
  "length x < 2 ^ 32 \<Longrightarrow> encodeLengthPrefixed x = Inr (le_bytes (length x) 4 @ x)"
  by (simp add: encodeLengthPrefixed_def writeUInt32LE_def thenE_def)

lemma serializeViaMessage_Inr:
  assumes "serializeViaMessage tx src dst a b c e = Inr L"
  shows "\<bar>tx\<bar> < 2 ^ 128 \<and> \<bar>src\<bar> < 2 ^ 64 \<and> \<bar>dst\<bar> < 2 ^ 64
         \<and> length a < 2 ^ 32 \<and> length b < 2 ^ 32 \<and> length c < 2 ^ 32 \<and> length e < 2 ^ 32
         \<and> L = le_bytes (nat \<bar>tx\<bar>) 16 @ le_bytes (nat \<bar>src\<bar>) 8 @ le_bytes (nat \<bar>dst\<bar>) 8
               @ (le_bytes (length a) 4 @ a) @ (le_bytes (length b) 4 @ b)
               @ (le_bytes (length c) 4 @ c) @ (le_bytes (length e) 4 @ e)"
  using assms
  by (auto simp: serializeViaMessage_def toArrayLike_def encodeLengthPrefixed_def
      writeUInt32LE_def thenE_def Let_def split: if_splits)

lemma decodeFields_serialized:
  assumes "serializeViaMessage tx src dst a b c e = Inr L"
  shows "decodeFields (L @ extra) =
         Inr (\<lparr> txId = \<bar>tx\<bar>, sourceChainId = \<bar>src\<bar>, destChainId = \<bar>dst\<bar>,
                sender = a, recipient = b, onChainData = c, offChainData = e \<rparr>, length L)"
proof -
  note S = serializeViaMessage_Inr [OF assms]
  let ?t = "le_bytes (nat \<bar>tx\<bar>) 16" and ?s = "le_bytes (nat \<bar>src\<bar>) 8"
    and ?d = "le_bytes (nat \<bar>dst\<bar>) 8"
  have v: "BN_le ?t = \<bar>tx\<bar>" "BN_le ?s = \<bar>src\<bar>" "BN_le ?d = \<bar>dst\<bar>"
    using S by (simp_all add: BN_le_def le_value_le_bytes nat_less_iff)
  have "decodeFields (?t @ ?s @ ?d @ (le_bytes (length a) 4 @ a) @ (le_bytes (length b) 4 @ b)
                       @ (le_bytes (length c) 4 @ c) @ (le_bytes (length e) 4 @ e) @ extra) =
         Inr (\<lparr> txId = BN_le ?t, sourceChainId = BN_le ?s, destChainId = BN_le ?d,
                sender = a, recipient = b, onChainData = c, offChainData = e \<rparr>,
              48 + length a + length b + length c + length e)"
    using S by (intro decodeFields_layout) simp_all
  moreover have "length L = 48 + length a + length b + length c + length e"
    using S by simp
  ultimately show ?thesis using S v by simp
qed

lemma decodeFields_Inr:
  assumes "decodeFields buf = Inr (m, off)"
  shows "off \<le> length buf
         \<and> off = 48 + length (sender m) + length (recipient m) + length (onChainData m)
                 + length (offChainData m)
         \<and> serializeViaMessage (txId m) (sourceChainId m) (destChainId m) (sender m)
               (recipient m) (onChainData m) (offChainData m) = Inr (take off buf)"
proof -
  from assms obtain t o1 s o2 d o3 a b c e where
    r1: "readBytes buf 0 16 ''txId'' = Inr (t, o1)" and
    r2: "readBytes buf o1 8 ''sourceChainId'' = Inr (s, o2)" and
    r3: "readBytes buf o2 8 ''destChainId'' = Inr (d, o3)" and
    r4: "decodeLengthPrefixed buf o3 ''sender'' = Inr a" and
    r5: "decodeLengthPrefixed buf (o3 + (4 + length a)) ''recipient'' = Inr b" and
    r6: "decodeLengthPrefixed buf (o3 + (4 + length a) + (4 + length b)) ''onChainData'' = Inr c" and
    r7: "decodeLengthPrefixed buf (o3 + (4 + length a) + (4 + length b) + (4 + length c))
           ''offChainData'' = Inr e" and
    m: "m = \<lparr> txId = BN_le t, sourceChainId = BN_le s, destChainId = BN_le d,
               sender = a, recipient = b, onChainData = c, offChainData = e \<rparr>" and
    off: "off = o3 + (4 + length a) + (4 + length b) + (4 + length c) + (4 + length e)"
    by (auto simp: decodeFields_def thenE_def Let_def split: sum.splits prod.splits)
  from readBytes_Inr [OF r1] have p1: "o1 = 16" "16 \<le> length buf" "length t = 16" "take 16 buf = t" by auto
  from readBytes_Inr [OF r2] p1 have p2: "o2 = 24" "24 \<le> length buf" "length s = 8" "take 24 buf = t @ s"
    by auto
  from readBytes_Inr [OF r3] p2 have p3: "o3 = 32" "32 \<le> length buf" "length d = 8" "take 32 buf = t @ s @ d"
    by auto
  from decodeLengthPrefixed_Inr [OF r4] p3 have p4: "length a < 2 ^ 32"
    "take (36 + length a) buf = t @ s @ d @ le_bytes (length a) 4 @ a"
    by simp_all
  from decodeLengthPrefixed_Inr [OF r5] p3 p4 have p5: "length b < 2 ^ 32"
    "take (40 + length a + length b) buf
       = t @ s @ d @ (le_bytes (length a) 4 @ a) @ le_bytes (length b) 4 @ b"
    by (simp_all add: add_ac)
  from decodeLengthPrefixed_Inr [OF r6] p3 p5 have p6: "length c < 2 ^ 32"
    "take (44 + length a + length b + length c) buf
       = t @ s @ d @ (le_bytes (length a) 4 @ a) @ (le_bytes (length b) 4 @ b)
         @ le_bytes (length c) 4 @ c"
    by (simp_all add: add_ac)
  from decodeLengthPrefixed_Inr [OF r7] p3 p6 have p7: "length e < 2 ^ 32"
    "48 + length a + length b + length c + length e \<le> length buf"
    "take (48 + length a + length b + length c + length e) buf
       = t @ s @ d @ (le_bytes (length a) 4 @ a) @ (le_bytes (length b) 4 @ b)
         @ (le_bytes (length c) 4 @ c) @ le_bytes (length e) 4 @ e"
    by (simp_all add: add_ac)
  have o: "off = 48 + length a + length b + length c + length e" using off p3 by simp
  have "serializeViaMessage (BN_le t) (BN_le s) (BN_le d) a b c e
        = Inr (t @ s @ d @ (le_bytes (length a) 4 @ a) @ (le_bytes (length b) 4 @ b)
               @ (le_bytes (length c) 4 @ c) @ le_bytes (length e) 4 @ e)"
    using p1 p2 p3 p4 p5 p6 p7
    by (simp add: serializeViaMessage_def toArrayLike_BN_le encodeLengthPrefixed_ok thenE_def)
  with o p7 m show ?thesis by simp
qed

lemma serializeViaMessage_ok:
  assumes "\<bar>tx\<bar> < 2 ^ 128" "\<bar>src\<bar> < 2 ^ 64" "\<bar>dst\<bar> < 2 ^ 64"
    and "length a < 2 ^ 32" "length b < 2 ^ 32" "length c < 2 ^ 32" "length e < 2 ^ 32"
  shows "serializeViaMessage tx src dst a b c e =
         Inr (le_bytes (nat \<bar>tx\<bar>) 16 @ le_bytes (nat \<bar>src\<bar>) 8 @ le_bytes (nat \<bar>dst\<bar>) 8
               @ (le_bytes (length a) 4 @ a) @ (le_bytes (length b) 4 @ b)
               @ (le_bytes (length c) 4 @ c) @ (le_bytes (length e) 4 @ e))"
  using assms
  by (simp add: serializeViaMessage_def toArrayLike_def encodeLengthPrefixed_ok thenE_def
      Let_def not_le nat_less_iff)

lemma serializeViaMessage_Inl_iff:
  assumes "length a < 2 ^ 32" "length b < 2 ^ 32" "length c < 2 ^ 32" "length e < 2 ^ 32"
  shows "(\<exists>err. serializeViaMessage tx src dst a b c e = Inl err)
         \<longleftrightarrow> (2 ^ 128 \<le> \<bar>tx\<bar> \<or> 2 ^ 64 \<le> \<bar>src\<bar> \<or> 2 ^ 64 \<le> \<bar>dst\<bar>)"
proof (cases "\<bar>tx\<bar> < 2 ^ 128 \<and> \<bar>src\<bar> < 2 ^ 64 \<and> \<bar>dst\<bar> < 2 ^ 64")
  case True
  then show ?thesis using serializeViaMessage_ok [of tx src dst a b c e] assms by auto
next
  case False
  have "\<not> (\<exists>L. serializeViaMessage tx src dst a b c e = Inr L)"
    using serializeViaMessage_Inr [of tx src dst a b c e] False by blast
  then have "\<exists>err. serializeViaMessage tx src dst a b c e = Inl err"
    by (cases "serializeViaMessage tx src dst a b c e") auto
  with False show ?thesis by auto
qed

lemma decodeViaMessage_serialized:
  assumes "serializeViaMessage tx src dst a b c e = Inr L"
  shows "decodeViaMessage L =
         Inr \<lparr> txId = \<bar>tx\<bar>, sourceChainId = \<bar>src\<bar>, destChainId = \<bar>dst\<bar>,
               sender = a, recipient = b, onChainData = c, offChainData = e \<rparr>"
  using decodeFields_serialized [OF assms, of "[]"]
  by (simp add: decodeViaMessage_def thenE_def)

subsection \<open>Round trip\<close>

text \<open>
  Claim C1. For every valid message (txId below \<open>2^128\<close>, chain ids below \<open>2^64\<close>, none
  negative, sender and recipient of at most 64 bytes, both payloads of at most 1024 bytes)
  encoding succeeds and decoding the encoded bytes returns the message, field by field.
  Nothing is assumed about the lengths beyond the bounds, so empty fields and fields of
  exactly the maximum length are covered.
\<close>

theorem encode_decode_roundtrip:
  fixes m :: DecodedViaMessage
  assumes "0 \<le> txId m" "txId m < 2 ^ 128"
    and "0 \<le> sourceChainId m" "sourceChainId m < 2 ^ 64"
    and "0 \<le> destChainId m" "destChainId m < 2 ^ 64"
    and "length (sender m) \<le> 64" "length (recipient m) \<le> 64"
    and "length (onChainData m) \<le> 1024" "length (offChainData m) \<le> 1024"
  shows "\<exists>enc. encodeViaMessage (txId m) (sourceChainId m) (destChainId m) (sender m)
                 (recipient m) (onChainData m) (offChainData m) = Inr enc
               \<and> decodeViaMessage enc = Inr m"
proof -
  let ?ser = "serializeViaMessage (txId m) (sourceChainId m) (destChainId m) (sender m)
                 (recipient m) (onChainData m) (offChainData m)"
  have enc: "encodeViaMessage (txId m) (sourceChainId m) (destChainId m) (sender m)
                 (recipient m) (onChainData m) (offChainData m) = ?ser"
    using assms
    by (simp add: encodeViaMessage_def MAX_SENDER_SIZE_def MAX_RECIPIENT_SIZE_def
        MAX_ON_CHAIN_DATA_def MAX_OFF_CHAIN_DATA_def)
  obtain L where L: "?ser = Inr L"
    using serializeViaMessage_ok [of "txId m" "sourceChainId m" "destChainId m" "sender m"
        "recipient m" "onChainData m" "offChainData m"] assms by simp
  have "decodeViaMessage L = Inr m"
    using decodeViaMessage_serialized [OF L] assms by simp
  with enc L show ?thesis by simp
qed

theorem encode_decode_roundtrip_witness:
  "\<exists>enc. encodeViaMessage 1 43113 9999999999999999999 (replicate 64 0) [] (replicate 1024 7) []
            = Inr enc
         \<and> decodeViaMessage enc
            = Inr \<lparr> txId = 1, sourceChainId = 43113, destChainId = 9999999999999999999,
                    sender = replicate 64 0, recipient = [], onChainData = replicate 1024 7,
                    offChainData = [] \<rparr>"
  using encode_decode_roundtrip
    [of "\<lparr> txId = 1, sourceChainId = 43113, destChainId = 9999999999999999999,
           sender = replicate 64 0, recipient = [], onChainData = replicate 1024 7,
           offChainData = [] \<rparr>"]
  by simp

subsection \<open>Size rejection\<close>

lemma string_of_nat_64: "string_of_nat 64 = ''64''"
  by (simp add: string_of_nat.simps)

lemma string_of_nat_1024: "string_of_nat 1024 = ''1024''"
  by (simp add: string_of_nat.simps)


text \<open>
  Claim C2, as amended. \<open>encodeViaMessage\<close> fails exactly when a variable-length field
  exceeds its bound (sender or recipient above 64 bytes, either payload above 1024 bytes) or
  when an integer field does not fit its fixed width (magnitude of txId at least \<open>2^128\<close>,
  of a chain id at least \<open>2^64\<close>), where the big-number library refuses to write it. When a
  variable-length field is too long, the message names the first such field in the order
  sender, recipient, on-chain data, off-chain data, with the observed length and the maximum.
  Whenever encoding succeeds, the output holds every variable-length field whole behind its
  four-byte length, so nothing is cut short; fields exactly at their bound are accepted.
\<close>

theorem encodeViaMessage_failure_conditions:
  "((\<exists>err. encodeViaMessage tx src dst a b c e = Inl err) \<longleftrightarrow>
      (length a > 64 \<or> length b > 64 \<or> length c > 1024 \<or> length e > 1024
       \<or> 2 ^ 128 \<le> \<bar>tx\<bar> \<or> 2 ^ 64 \<le> \<bar>src\<bar> \<or> 2 ^ 64 \<le> \<bar>dst\<bar>))
   \<and> (length a > 64 \<longrightarrow>
        encodeViaMessage tx src dst a b c e
        = Inl (Error (''Sender too long: '' @ string_of_nat (length a) @ '' bytes (max 64)'')))
   \<and> (length a \<le> 64 \<and> length b > 64 \<longrightarrow>
        encodeViaMessage tx src dst a b c e
        = Inl (Error (''Recipient too long: '' @ string_of_nat (length b) @ '' bytes (max 64)'')))
   \<and> (length a \<le> 64 \<and> length b \<le> 64 \<and> length c > 1024 \<longrightarrow>
        encodeViaMessage tx src dst a b c e
        = Inl (Error (''On-chain data too large: '' @ string_of_nat (length c)
                      @ '' bytes (max 1024)'')))
   \<and> (length a \<le> 64 \<and> length b \<le> 64 \<and> length c \<le> 1024 \<and> length e > 1024 \<longrightarrow>
        encodeViaMessage tx src dst a b c e
        = Inl (Error (''Off-chain data too large: '' @ string_of_nat (length e)
                      @ '' bytes (max 1024)'')))
   \<and> (\<forall>enc. encodeViaMessage tx src dst a b c e = Inr enc \<longrightarrow>
        enc = le_bytes (nat \<bar>tx\<bar>) 16 @ le_bytes (nat \<bar>src\<bar>) 8 @ le_bytes (nat \<bar>dst\<bar>) 8
              @ (le_bytes (length a) 4 @ a) @ (le_bytes (length b) 4 @ b)
              @ (le_bytes (length c) 4 @ c) @ (le_bytes (length e) 4 @ e))"
proof -
  let ?enc = "encodeViaMessage tx src dst a b c e"
  let ?big = "length a > 64 \<or> length b > 64 \<or> length c > 1024 \<or> length e > 1024"
  have sizes: "?big \<Longrightarrow> \<exists>err. ?enc = Inl err"
    by (auto simp: encodeViaMessage_def MAX_SENDER_SIZE_def MAX_RECIPIENT_SIZE_def
        MAX_ON_CHAIN_DATA_def MAX_OFF_CHAIN_DATA_def)
  have small: "\<not> ?big \<Longrightarrow> ?enc = serializeViaMessage tx src dst a b c e"
    by (simp add: encodeViaMessage_def MAX_SENDER_SIZE_def MAX_RECIPIENT_SIZE_def
        MAX_ON_CHAIN_DATA_def MAX_OFF_CHAIN_DATA_def)
  have ser: "\<not> ?big \<Longrightarrow> (\<exists>err. serializeViaMessage tx src dst a b c e = Inl err)
                \<longleftrightarrow> (2 ^ 128 \<le> \<bar>tx\<bar> \<or> 2 ^ 64 \<le> \<bar>src\<bar> \<or> 2 ^ 64 \<le> \<bar>dst\<bar>)"
    by (rule serializeViaMessage_Inl_iff) simp_all
  have c1: "(\<exists>err. ?enc = Inl err) \<longleftrightarrow>
      (?big \<or> 2 ^ 128 \<le> \<bar>tx\<bar> \<or> 2 ^ 64 \<le> \<bar>src\<bar> \<or> 2 ^ 64 \<le> \<bar>dst\<bar>)"
  proof (cases ?big)
    case True
    with sizes show ?thesis by blast
  next
    case False
    with small ser show ?thesis by simp
  qed
  have c2: "length a > 64 \<longrightarrow> ?enc
        = Inl (Error (''Sender too long: '' @ string_of_nat (length a) @ '' bytes (max 64)''))"
    by (simp add: encodeViaMessage_def MAX_SENDER_SIZE_def string_of_nat_64)
  have c3: "length a \<le> 64 \<and> length b > 64 \<longrightarrow> ?enc
        = Inl (Error (''Recipient too long: '' @ string_of_nat (length b) @ '' bytes (max 64)''))"
    by (simp add: encodeViaMessage_def MAX_SENDER_SIZE_def MAX_RECIPIENT_SIZE_def
        string_of_nat_64)
  have c4: "length a \<le> 64 \<and> length b \<le> 64 \<and> length c > 1024 \<longrightarrow> ?enc
        = Inl (Error (''On-chain data too large: '' @ string_of_nat (length c)
                      @ '' bytes (max 1024)''))"
    by (simp add: encodeViaMessage_def MAX_SENDER_SIZE_def MAX_RECIPIENT_SIZE_def
        MAX_ON_CHAIN_DATA_def string_of_nat_1024)
  have c5: "length a \<le> 64 \<and> length b \<le> 64 \<and> length c \<le> 1024 \<and> length e > 1024 \<longrightarrow> ?enc
        = Inl (Error (''Off-chain data too large: '' @ string_of_nat (length e)
                      @ '' bytes (max 1024)''))"
    by (simp add: encodeViaMessage_def MAX_SENDER_SIZE_def MAX_RECIPIENT_SIZE_def
        MAX_ON_CHAIN_DATA_def MAX_OFF_CHAIN_DATA_def string_of_nat_1024)
  have c6: "\<forall>enc. ?enc = Inr enc \<longrightarrow>
        enc = le_bytes (nat \<bar>tx\<bar>) 16 @ le_bytes (nat \<bar>src\<bar>) 8 @ le_bytes (nat \<bar>dst\<bar>) 8
              @ (le_bytes (length a) 4 @ a) @ (le_bytes (length b) 4 @ b)
              @ (le_bytes (length c) 4 @ c) @ (le_bytes (length e) 4 @ e)"
  proof (intro allI impI)
    fix enc assume e: "?enc = Inr enc"
    then have "\<not> ?big" using sizes by auto
    with small e have "serializeViaMessage tx src dst a b c e = Inr enc" by simp
    then show "enc = le_bytes (nat \<bar>tx\<bar>) 16 @ le_bytes (nat \<bar>src\<bar>) 8 @ le_bytes (nat \<bar>dst\<bar>) 8
              @ (le_bytes (length a) 4 @ a) @ (le_bytes (length b) 4 @ b)
              @ (le_bytes (length c) 4 @ c) @ (le_bytes (length e) 4 @ e)"
      using serializeViaMessage_Inr by blast
  qed
  from c1 c2 c3 c4 c5 c6 show ?thesis by blast
qed

text \<open>
  The claim as first stated (failure if and only if a variable-length field is too long) does
  not hold: a txId of \<open>2^128\<close> with four empty byte fields is rejected although no
  variable-length field exceeds its bound.
\<close>

theorem encodeViaMessage_throws_iff_counterexample:
  "encodeViaMessage (2 ^ 128) 1 1 [] [] [] [] = Inl (Error ''byte array longer than desired length'')
   \<and> \<not> (length ([] :: buffer) > MAX_SENDER_SIZE \<or> length ([] :: buffer) > MAX_RECIPIENT_SIZE
          \<or> length ([] :: buffer) > MAX_ON_CHAIN_DATA \<or> length ([] :: buffer) > MAX_OFF_CHAIN_DATA)"
  by (simp add: encodeViaMessage_def serializeViaMessage_def toArrayLike_def thenE_def
      MAX_SENDER_SIZE_def MAX_RECIPIENT_SIZE_def MAX_ON_CHAIN_DATA_def MAX_OFF_CHAIN_DATA_def)

theorem encodeViaMessage_failure_conditions_witness:
  "encodeViaMessage 1 2 3 (replicate 65 0) [] [] []
     = Inl (Error ''Sender too long: 65 bytes (max 64)'')
   \<and> encodeViaMessage 1 2 3 [] (replicate 65 0) [] []
     = Inl (Error ''Recipient too long: 65 bytes (max 64)'')
   \<and> encodeViaMessage 1 2 3 [] [] (replicate 1025 0) []
     = Inl (Error ''On-chain data too large: 1025 bytes (max 1024)'')
   \<and> encodeViaMessage 1 2 3 [] [] [] (replicate 1025 0)
     = Inl (Error ''Off-chain data too large: 1025 bytes (max 1024)'')
   \<and> (\<nexists>err. encodeViaMessage 1 2 3 (replicate 64 0) (replicate 64 0) (replicate 1024 0)
              (replicate 1024 0) = Inl err)"
  using encodeViaMessage_failure_conditions [of 1 2 3 "replicate 65 0" "[]" "[]" "[]"]
    encodeViaMessage_failure_conditions [of 1 2 3 "[]" "replicate 65 0" "[]" "[]"]
    encodeViaMessage_failure_conditions [of 1 2 3 "[]" "[]" "replicate 1025 0" "[]"]
    encodeViaMessage_failure_conditions [of 1 2 3 "[]" "[]" "[]" "replicate 1025 0"]
    encodeViaMessage_failure_conditions [of 1 2 3 "replicate 64 0" "replicate 64 0"
      "replicate 1024 0" "replicate 1024 0"]
  by (simp add: string_of_nat.simps)

subsection \<open>Decoder failures and exact consumption\<close>

lemma readBytes_Inl: "readBytes b offset len nm = Inl err \<Longrightarrow> isTruncatedBuffer err"
  by (auto simp: readBytes_def isTruncatedBuffer_def split: if_splits)

lemma decodeLengthPrefixed_Inl:
  "decodeLengthPrefixed b offset nm = Inl err \<Longrightarrow> isTruncatedBuffer err"
  by (auto simp: decodeLengthPrefixed_def readUInt32LE_def thenE_def isTruncatedBuffer_def
      Let_def split: if_splits)

lemma decodeFields_Inl:
  assumes "decodeFields buf = Inl err"
  shows "isTruncatedBuffer err"
  using assms
  by (auto simp: decodeFields_def thenE_def Let_def split: sum.splits prod.splits
      dest: readBytes_Inl decodeLengthPrefixed_Inl)

lemma decodeLengthPrefixed_short:
  assumes "offset + 4 > length b \<or> (\<exists>n. readUInt32LE b offset = Inr n \<and> offset + 4 + n > length b)"
  shows "\<exists>err. decodeLengthPrefixed b offset nm = Inl err \<and> isTruncatedBuffer err"
proof -
  have "\<exists>err. decodeLengthPrefixed b offset nm = Inl err"
    using assms by (auto simp: decodeLengthPrefixed_def thenE_def Let_def)
  then show ?thesis using decodeLengthPrefixed_Inl by blast
qed

lemma decodeViaMessage_strict_prefix:
  assumes ser: "serializeViaMessage tx src dst a b c e = Inr L" and pre: "strict_prefix buf L"
  shows "\<exists>err. decodeViaMessage buf = Inl err \<and> isTruncatedBuffer err"
proof (cases "decodeFields buf")
  case (Inl err)
  then have "decodeViaMessage buf = Inl err" by (simp add: decodeViaMessage_def thenE_def)
  with decodeFields_Inl [OF Inl] show ?thesis by blast
next
  case (Inr r)
  obtain m off where r: "r = (m, off)" by (cases r)
  from pre obtain y where y: "L = buf @ y" "y \<noteq> []"
    by (auto simp: strict_prefix_def prefix_def)
  note D = decodeFields_Inr [OF Inr [unfolded r]]
  let ?L' = "take off buf"
  from D have ser': "serializeViaMessage (txId m) (sourceChainId m) (destChainId m) (sender m)
               (recipient m) (onChainData m) (offChainData m) = Inr ?L'" by simp
  have "L = ?L' @ (drop off buf @ y)" using y by simp
  then have "decodeFields L = decodeFields (?L' @ (drop off buf @ y))" by simp
  also have "\<dots> = Inr (\<lparr> txId = \<bar>txId m\<bar>, sourceChainId = \<bar>sourceChainId m\<bar>,
      destChainId = \<bar>destChainId m\<bar>, sender = sender m, recipient = recipient m,
      onChainData = onChainData m, offChainData = offChainData m \<rparr>, length ?L')"
    by (rule decodeFields_serialized [OF ser'])
  finally have 1: "snd (projr (decodeFields L)) = length ?L'" by simp
  have "snd (projr (decodeFields L)) = length L"
    using decodeFields_serialized [OF ser, of "[]"] by simp
  with 1 have "length L = length ?L'" by simp
  moreover have "length ?L' \<le> length buf" by simp
  moreover have "length buf < length L" using y by simp
  ultimately show ?thesis by simp
qed

lemma decodeViaMessage_trailing:
  assumes ser: "serializeViaMessage tx src dst a b c e = Inr L" and "extra \<noteq> []"
  shows "decodeViaMessage (L @ extra) =
         Inl (Error (''Buffer has extra data: decoded '' @ string_of_nat (length L)
                     @ '' bytes but buffer is '' @ string_of_nat (length L + length extra)
                     @ '' bytes''))"
  using decodeFields_serialized [OF ser, of extra] assms(2)
  by (simp add: decodeViaMessage_def thenE_def)

lemma decodeViaMessage_Inr:
  assumes "decodeViaMessage buf = Inr m"
  shows "decodeFields buf = Inr (m, length buf)
         \<and> length buf = 48 + length (sender m) + length (recipient m) + length (onChainData m)
                 + length (offChainData m)
         \<and> serializeViaMessage (txId m) (sourceChainId m) (destChainId m) (sender m)
               (recipient m) (onChainData m) (offChainData m) = Inr buf"
proof -
  from assms obtain off where d: "decodeFields buf = Inr (m, off)" and o: "off = length buf"
    by (auto simp: decodeViaMessage_def thenE_def split: sum.splits prod.splits if_splits)
  from decodeFields_Inr [OF d] o d show ?thesis by simp
qed

lemma decodeViaMessage_Inl:
  assumes "decodeViaMessage buf = Inl err"
  shows "isTruncatedBuffer err \<or> isTrailingBytes err"
  using assms
  by (auto simp: decodeViaMessage_def thenE_def isTrailingBytes_def
      split: sum.splits prod.splits if_splits dest: decodeFields_Inl)

lemma le_bytes_zero: "le_bytes 0 k = replicate k 0"
  by (induction k) simp_all


lemma decodeLengthPrefixed_short_at:
  assumes "offset = length pre"
    and "length r < 4 \<or> length r < 4 + le_value (take 4 r)"
  shows "\<exists>err. decodeLengthPrefixed (pre @ r) offset nm = Inl err \<and> isTruncatedBuffer err"
proof (rule decodeLengthPrefixed_short)
  show "length (pre @ r) < offset + 4
        \<or> (\<exists>n. readUInt32LE (pre @ r) offset = Inr n \<and> length (pre @ r) < offset + 4 + n)"
  proof (cases "length r < 4")
    case True
    with assms(1) show ?thesis by simp
  next
    case False
    with assms have "readUInt32LE (pre @ r) offset = Inr (le_value (take 4 r))"
      and "length (pre @ r) < offset + 4 + le_value (take 4 r)"
      by (simp_all add: readUInt32LE_def slice_def)
    then show ?thesis by blast
  qed
qed

lemma decodeFields_truncated_sender:
  assumes "length t = 16" "length s = 8" "length d = 8"
    and "length r < 4 \<or> length r < 4 + le_value (take 4 r)"
  shows "\<exists>err. decodeFields (t @ s @ d @ r) = Inl err"
proof -
  from decodeLengthPrefixed_short_at [of 32 "t @ s @ d" r "''sender''"] assms
  obtain err where "decodeLengthPrefixed (t @ s @ d @ r) 32 ''sender'' = Inl err" by auto
  then show ?thesis
    using assms(1-3) by (simp add: decodeFields_def readBytes_ok thenE_def)
qed

lemma decodeFields_truncated_recipient:
  assumes "length t = 16" "length s = 8" "length d = 8" "length a < 2 ^ 32"
    and "length r < 4 \<or> length r < 4 + le_value (take 4 r)"
  shows "\<exists>err. decodeFields (t @ s @ d @ (le_bytes (length a) 4 @ a) @ r) = Inl err"
proof -
  from decodeLengthPrefixed_short_at
    [of "36 + length a" "t @ s @ d @ le_bytes (length a) 4 @ a" r "''recipient''"] assms
  obtain err where "decodeLengthPrefixed (t @ s @ d @ le_bytes (length a) 4 @ a @ r)
                      (36 + length a) ''recipient'' = Inl err" by auto
  then show ?thesis
    using assms(1-4)
    by (simp add: decodeFields_def readBytes_ok decodeLengthPrefixed_ok thenE_def Let_def
        le_value_le_bytes)
qed

lemma decodeFields_truncated_onChainData:
  assumes "length t = 16" "length s = 8" "length d = 8" "length a < 2 ^ 32" "length b < 2 ^ 32"
    and "length r < 4 \<or> length r < 4 + le_value (take 4 r)"
  shows "\<exists>err. decodeFields (t @ s @ d @ (le_bytes (length a) 4 @ a)
                               @ (le_bytes (length b) 4 @ b) @ r) = Inl err"
proof -
  from decodeLengthPrefixed_short_at
    [of "40 + length a + length b"
        "t @ s @ d @ le_bytes (length a) 4 @ a @ le_bytes (length b) 4 @ b" r
        "''onChainData''"] assms
  obtain err where "decodeLengthPrefixed
                      (t @ s @ d @ le_bytes (length a) 4 @ a @ le_bytes (length b) 4 @ b @ r)
                      (40 + length a + length b) ''onChainData'' = Inl err" by auto
  then show ?thesis
    using assms(1-5)
    by (simp add: decodeFields_def readBytes_ok decodeLengthPrefixed_ok thenE_def Let_def
        le_value_le_bytes add_ac)
qed

lemma decodeFields_truncated_offChainData:
  assumes "length t = 16" "length s = 8" "length d = 8"
    and "length a < 2 ^ 32" "length b < 2 ^ 32" "length c < 2 ^ 32"
    and "length r < 4 \<or> length r < 4 + le_value (take 4 r)"
  shows "\<exists>err. decodeFields (t @ s @ d @ (le_bytes (length a) 4 @ a)
                               @ (le_bytes (length b) 4 @ b) @ (le_bytes (length c) 4 @ c) @ r)
               = Inl err"
proof -
  from decodeLengthPrefixed_short_at
    [of "44 + length a + length b + length c"
        "t @ s @ d @ le_bytes (length a) 4 @ a @ le_bytes (length b) 4 @ b
         @ le_bytes (length c) 4 @ c" r "''offChainData''"] assms
  obtain err where "decodeLengthPrefixed
                      (t @ s @ d @ le_bytes (length a) 4 @ a @ le_bytes (length b) 4 @ b
                       @ le_bytes (length c) 4 @ c @ r)
                      (44 + length a + length b + length c) ''offChainData'' = Inl err" by auto
  then show ?thesis
    using assms(1-6)
    by (simp add: decodeFields_def readBytes_ok decodeLengthPrefixed_ok thenE_def Let_def
        le_value_le_bytes add_ac)
qed

lemma decodeViaMessage_truncated_field:
  assumes "length t = 16" "length s = 8" "length d = 8"
    and "length earlier < 4" "\<forall>x \<in> set earlier. length x < 2 ^ 32"
    and "length r < 4 \<or> length r < 4 + le_value (take 4 r)"
  shows "\<exists>err. decodeViaMessage
                 (t @ s @ d @ concat (map (\<lambda>x. le_bytes (length x) 4 @ x) earlier) @ r) = Inl err
               \<and> isTruncatedBuffer err"
proof -
  let ?buf = "t @ s @ d @ concat (map (\<lambda>x. le_bytes (length x) 4 @ x) earlier) @ r"
  have "\<exists>err. decodeFields ?buf = Inl err"
  proof (cases earlier)
    case Nil
    then show ?thesis using decodeFields_truncated_sender [OF assms(1-3) assms(6)] by simp
  next
    case e1: (Cons a rest1)
    show ?thesis
    proof (cases rest1)
      case Nil
      with e1 assms(5) show ?thesis
        using decodeFields_truncated_recipient [OF assms(1-3) _ assms(6), of a] by simp
    next
      case e2: (Cons b rest2)
      show ?thesis
      proof (cases rest2)
        case Nil
        with e1 e2 assms(5) show ?thesis
          using decodeFields_truncated_onChainData [OF assms(1-3) _ _ assms(6), of a b] by simp
      next
        case e3: (Cons c rest3)
        with e1 e2 assms(4) have "rest3 = []" by simp
        with e1 e2 e3 assms(5) show ?thesis
          using decodeFields_truncated_offChainData [OF assms(1-3) _ _ _ assms(6), of a b c]
          by simp
      qed
    qed
  qed
  then obtain err where e: "decodeFields ?buf = Inl err" by blast
  then have "decodeViaMessage ?buf = Inl err" by (simp add: decodeViaMessage_def thenE_def)
  with decodeFields_Inl [OF e] show ?thesis by blast
qed

text \<open>
  Claim C3. A successful decode has consumed the buffer exactly: the offset after the last
  field equals the buffer length, which is 48 plus the four field lengths, and the buffer is
  the serialisation of the decoded fields. Every failure is a truncation error or a
  trailing-bytes error. A buffer that stops short of a complete serialisation (fewer bytes
  left than a fixed-width field or a length prefix asks for) gives a truncation error; a
  complete serialisation followed by further bytes gives a trailing-bytes error. Field by
  field: a buffer shorter than the 32 bytes of the fixed-width fields, or one in which,
  after the fixed-width fields and up to three complete length-prefixed fields, fewer than
  four bytes are left for the next length prefix or fewer bytes than that prefix declares,
  gives a truncation error.
\<close>

theorem decodeViaMessage_consumes_exactly:
  "(\<forall>m. decodeViaMessage buf = Inr m \<longrightarrow>
        decodeFields buf = Inr (m, length buf)
        \<and> length buf = 48 + length (sender m) + length (recipient m) + length (onChainData m)
                        + length (offChainData m)
        \<and> serializeViaMessage (txId m) (sourceChainId m) (destChainId m) (sender m)
              (recipient m) (onChainData m) (offChainData m) = Inr buf)
   \<and> (\<forall>err. decodeViaMessage buf = Inl err \<longrightarrow> isTruncatedBuffer err \<or> isTrailingBytes err)
   \<and> (\<forall>tx src dst a b c e L. serializeViaMessage tx src dst a b c e = Inr L
          \<and> strict_prefix buf L \<longrightarrow>
        (\<exists>err. decodeViaMessage buf = Inl err \<and> isTruncatedBuffer err))
   \<and> (\<forall>tx src dst a b c e L extra. serializeViaMessage tx src dst a b c e = Inr L
          \<and> buf = L @ extra \<and> extra \<noteq> [] \<longrightarrow>
        (\<exists>err. decodeViaMessage buf = Inl err \<and> isTrailingBytes err))
   \<and> (\<forall>offset nm. offset + 4 > length buf
          \<or> (\<exists>n. readUInt32LE buf offset = Inr n \<and> offset + 4 + n > length buf) \<longrightarrow>
        (\<exists>err. decodeLengthPrefixed buf offset nm = Inl err \<and> isTruncatedBuffer err))
   \<and> (length buf < 32 \<longrightarrow> (\<exists>err. decodeViaMessage buf = Inl err \<and> isTruncatedBuffer err))
   \<and> (\<forall>t s d earlier r. length t = 16 \<and> length s = 8 \<and> length d = 8
          \<and> length earlier < 4 \<and> (\<forall>x \<in> set earlier. length x < 2 ^ 32)
          \<and> buf = t @ s @ d @ concat (map (\<lambda>x. le_bytes (length x) 4 @ x) earlier) @ r
          \<and> (length r < 4 \<or> length r < 4 + le_value (take 4 r)) \<longrightarrow>
        (\<exists>err. decodeViaMessage buf = Inl err \<and> isTruncatedBuffer err))"
proof (intro conjI allI impI)
  fix m assume "decodeViaMessage buf = Inr m"
  from decodeViaMessage_Inr [OF this]
  show "decodeFields buf = Inr (m, length buf)"
    and "length buf = 48 + length (sender m) + length (recipient m) + length (onChainData m)
                        + length (offChainData m)"
    and "serializeViaMessage (txId m) (sourceChainId m) (destChainId m) (sender m)
              (recipient m) (onChainData m) (offChainData m) = Inr buf"
    by simp_all
next
  fix err assume "decodeViaMessage buf = Inl err"
  then show "isTruncatedBuffer err \<or> isTrailingBytes err" by (rule decodeViaMessage_Inl)
next
  fix tx src dst a b c e L
  assume "serializeViaMessage tx src dst a b c e = Inr L \<and> strict_prefix buf L"
  then show "\<exists>err. decodeViaMessage buf = Inl err \<and> isTruncatedBuffer err"
    using decodeViaMessage_strict_prefix by blast
next
  fix tx src dst a b c e L extra
  assume "serializeViaMessage tx src dst a b c e = Inr L \<and> buf = L @ extra \<and> extra \<noteq> []"
  then show "\<exists>err. decodeViaMessage buf = Inl err \<and> isTrailingBytes err"
    using decodeViaMessage_trailing [of tx src dst a b c e L extra]
    by (simp add: isTrailingBytes_def)
next
  fix offset nm
  assume "offset + 4 > length buf
          \<or> (\<exists>n. readUInt32LE buf offset = Inr n \<and> offset + 4 + n > length buf)"
  then show "\<exists>err. decodeLengthPrefixed buf offset nm = Inl err \<and> isTruncatedBuffer err"
    by (rule decodeLengthPrefixed_short)
next
  assume short: "length buf < 32"
  have "\<exists>err. decodeFields buf = Inl err"
  proof (cases "decodeFields buf")
    case (Inr r)
    obtain m off where "r = (m, off)" by (cases r)
    with Inr decodeFields_Inr [of buf m off] short show ?thesis by simp
  qed simp
  then obtain err where e: "decodeFields buf = Inl err" by blast
  then have "decodeViaMessage buf = Inl err" by (simp add: decodeViaMessage_def thenE_def)
  with decodeFields_Inl [OF e] show "\<exists>err. decodeViaMessage buf = Inl err \<and> isTruncatedBuffer err"
    by blast
next
  fix t s d earlier r
  assume "length t = 16 \<and> length s = 8 \<and> length d = 8
          \<and> length earlier < 4 \<and> (\<forall>x \<in> set earlier. length x < 2 ^ 32)
          \<and> buf = t @ s @ d @ concat (map (\<lambda>x. le_bytes (length x) 4 @ x) earlier) @ r
          \<and> (length r < 4 \<or> length r < 4 + le_value (take 4 r))"
  then show "\<exists>err. decodeViaMessage buf = Inl err \<and> isTruncatedBuffer err"
    using decodeViaMessage_truncated_field [of t s d earlier r] by blast
qed

theorem decodeViaMessage_consumes_exactly_witness:
  "decodeFields (replicate 48 0)
     = Inr (\<lparr> txId = 0, sourceChainId = 0, destChainId = 0,
              sender = [], recipient = [], onChainData = [], offChainData = [] \<rparr>, 48)
   \<and> (\<exists>err. decodeViaMessage (replicate 47 0) = Inl err \<and> isTruncatedBuffer err)
   \<and> (\<exists>err. decodeViaMessage (replicate 48 0 @ [1]) = Inl err \<and> isTrailingBytes err)
   \<and> (\<exists>err. decodeViaMessage [] = Inl err \<and> isTruncatedBuffer err)
   \<and> (\<exists>err. decodeViaMessage (replicate 16 0 @ replicate 8 0 @ replicate 8 0 @ [5, 0, 0, 0, 1, 2])
              = Inl err \<and> isTruncatedBuffer err)"
proof -
  have s: "serializeViaMessage 0 0 0 [] [] [] [] = Inr (replicate 48 0)"
    by (simp add: serializeViaMessage_def toArrayLike_def encodeLengthPrefixed_def
        writeUInt32LE_def thenE_def le_bytes_zero replicate_add [symmetric])
  have d: "decodeViaMessage (replicate 48 0)
           = Inr \<lparr> txId = 0, sourceChainId = 0, destChainId = 0,
                   sender = [], recipient = [], onChainData = [], offChainData = [] \<rparr>"
    using decodeViaMessage_serialized [OF s] by simp
  have "replicate (47 + 1) (0::byte) = replicate 47 0 @ replicate 1 0"
    by (rule replicate_add)
  then have "replicate 48 (0::byte) = replicate 47 0 @ [0]" by simp
  moreover have "strict_prefix xs (xs @ [y])" for xs :: buffer and y
    by (simp add: strict_prefix_def)
  ultimately have p: "strict_prefix (replicate 47 (0::byte)) (replicate 48 0)"
    by (simp only:)
  have "decodeFields (replicate 48 0)
     = Inr (\<lparr> txId = 0, sourceChainId = 0, destChainId = 0,
              sender = [], recipient = [], onChainData = [], offChainData = [] \<rparr>, 48)"
    using decodeViaMessage_consumes_exactly [of "replicate 48 0", THEN conjunct1] d by simp
  moreover have "\<exists>err. decodeViaMessage (replicate 47 0) = Inl err \<and> isTruncatedBuffer err"
    using decodeViaMessage_consumes_exactly
      [of "replicate 47 0", THEN conjunct2, THEN conjunct2, THEN conjunct1] s p
    by blast
  moreover have "\<exists>err. decodeViaMessage (replicate 48 0 @ [1]) = Inl err \<and> isTrailingBytes err"
    using decodeViaMessage_consumes_exactly
      [of "replicate 48 0 @ [1]", THEN conjunct2, THEN conjunct2, THEN conjunct2, THEN conjunct1]
      s
    by blast
  moreover have "\<exists>err. decodeViaMessage [] = Inl err \<and> isTruncatedBuffer err"
    using decodeViaMessage_consumes_exactly
      [of "[]", THEN conjunct2, THEN conjunct2, THEN conjunct2, THEN conjunct2, THEN conjunct2,
       THEN conjunct1]
    by simp
  moreover have "\<exists>err. decodeViaMessage
                        (replicate 16 0 @ replicate 8 0 @ replicate 8 0 @ [5, 0, 0, 0, 1, 2])
                      = Inl err \<and> isTruncatedBuffer err"
  proof -
    have "length (replicate 16 (0 :: byte)) = 16 \<and> length (replicate 8 (0 :: byte)) = 8
          \<and> length (replicate 8 (0 :: byte)) = 8
          \<and> length ([] :: buffer list) < 4 \<and> (\<forall>x \<in> set ([] :: buffer list). length x < 2 ^ 32)
          \<and> replicate 16 0 @ replicate 8 0 @ replicate 8 0 @ [5, 0, 0, 0, 1, 2]
              = replicate 16 0 @ replicate 8 0 @ replicate 8 0
                @ concat (map (\<lambda>x. le_bytes (length x) 4 @ x) []) @ [5, 0, 0, 0, 1, 2 :: byte]
          \<and> (length [5, 0, 0, 0, 1, 2 :: byte] < 4
              \<or> length [5, 0, 0, 0, 1, 2 :: byte] < 4 + le_value (take 4 [5, 0, 0, 0, 1, 2]))"
      by simp
    with decodeViaMessage_consumes_exactly
      [of "replicate 16 0 @ replicate 8 0 @ replicate 8 0 @ [5, 0, 0, 0, 1, 2]",
       THEN conjunct2, THEN conjunct2, THEN conjunct2, THEN conjunct2, THEN conjunct2,
       THEN conjunct2]
    show ?thesis by blast
  qed
  ultimately show ?thesis by blast
qed

section \<open>Properties of the message hash\<close>

lemma hex_value_hex_digit: "n < 16 \<Longrightarrow> hex_value (hex_digit n) = Some n"
proof -
  assume "n < 16"
  then have "n \<in> {0, 1, 2, 3, 4, 5, 6, 7, 8, 9, 10, 11, 12, 13, 14, 15}" by simp arith
  then show ?thesis
    by (auto simp: hex_value_def hex_digit_def)
qed

lemma buffer_from_hex_byte:
  "buffer_from_hex (hex_of_byte b @ rest) = b # buffer_from_hex rest"
proof -
  have lt: "unat b < 256" using unsigned_less [of b, where ?'a = nat] by simp
  then have d: "unat b div 16 < 16" and m: "unat b mod 16 < 16" by simp_all
  have "word_of_nat (16 * (unat b div 16) + unat b mod 16) = b" by simp
  then show ?thesis
    using hex_value_hex_digit [OF d] hex_value_hex_digit [OF m]
    by (simp add: hex_of_byte_def)
qed

lemma buffer_from_hex_keccak_256: "buffer_from_hex (keccak_256 kec msg) = kec msg"
proof -
  have "buffer_from_hex (concat (map hex_of_byte bs)) = bs" for bs
    by (induction bs) (simp_all add: buffer_from_hex_byte)
  then show ?thesis by (simp add: keccak_256_def)
qed

lemma createMessageHash_eq:
  "createMessageHash kec tx src dst a b c e =
   (case encodeViaMessage tx src dst a b c e of Inl err \<Rightarrow> Inl err
    | Inr encoded \<Rightarrow> Inr (kec encoded))"
  by (simp add: createMessageHash_def thenE_def buffer_from_hex_keccak_256 split: sum.splits)

lemma encodeViaMessage_valid:
  assumes "0 \<le> tx" "tx < 2 ^ 128" "0 \<le> src" "src < 2 ^ 64" "0 \<le> dst" "dst < 2 ^ 64"
    and "length a \<le> 64" "length b \<le> 64" "length c \<le> 1024" "length e \<le> 1024"
  shows "\<exists>encoded. encodeViaMessage tx src dst a b c e = Inr encoded"
proof -
  have "encodeViaMessage tx src dst a b c e = serializeViaMessage tx src dst a b c e"
    using assms
    by (simp add: encodeViaMessage_def MAX_SENDER_SIZE_def MAX_RECIPIENT_SIZE_def
        MAX_ON_CHAIN_DATA_def MAX_OFF_CHAIN_DATA_def)
  then show ?thesis
    using serializeViaMessage_ok [of tx src dst a b c e] assms by simp
qed

text \<open>
  Claim C4. For every valid message, \<open>createMessageHash\<close> returns the digest that the hash
  library computes of the bytes \<open>encodeViaMessage\<close> produces, 32 bytes long when the
  library's digest is (as Keccak-256 is); the hexadecimal string in between is read back
  without loss. The result is a function of the field values alone: calls with equal
  fields return the same bytes.
\<close>

theorem createMessageHash_keccak_of_encoding:
  assumes "0 \<le> tx" "tx < 2 ^ 128" "0 \<le> src" "src < 2 ^ 64" "0 \<le> dst" "dst < 2 ^ 64"
    and "length a \<le> 64" "length b \<le> 64" "length c \<le> 1024" "length e \<le> 1024"
    and "\<And>x. length (kec x) = 32"
  shows "\<exists>encoded. encodeViaMessage tx src dst a b c e = Inr encoded
           \<and> createMessageHash kec tx src dst a b c e = Inr (kec encoded)
           \<and> length (kec encoded) = 32
           \<and> (\<forall>tx' src' dst' a' b' c' e'.
                 tx' = tx \<and> src' = src \<and> dst' = dst \<and> a' = a \<and> b' = b \<and> c' = c \<and> e' = e
                 \<longrightarrow> createMessageHash kec tx' src' dst' a' b' c' e' = Inr (kec encoded))"
proof -
  from encodeViaMessage_valid [OF assms(1-10)] obtain encoded
    where enc: "encodeViaMessage tx src dst a b c e = Inr encoded" by blast
  then have "createMessageHash kec tx src dst a b c e = Inr (kec encoded)"
    by (simp add: createMessageHash_eq)
  with enc assms(11) show ?thesis by auto
qed

theorem createMessageHash_keccak_of_encoding_witness:
  "\<exists>encoded. encodeViaMessage 1 43113 9999999999999999999 (replicate 20 0) (replicate 32 0)
                (replicate 96 1) [] = Inr encoded
     \<and> createMessageHash (\<lambda>x. take 32 (x @ replicate 32 0)) 1 43113 9999999999999999999
           (replicate 20 0) (replicate 32 0) (replicate 96 1) []
         = Inr (take 32 (encoded @ replicate 32 0))
     \<and> length (take 32 (encoded @ replicate 32 0)) = 32"
proof -
  define kec where "kec = (\<lambda>x :: buffer. take 32 (x @ replicate 32 0))"
  have k: "length (kec x) = 32" for x
    by (simp add: kec_def min_def)
  have "\<exists>encoded. encodeViaMessage 1 43113 9999999999999999999 (replicate 20 0) (replicate 32 0)
                (replicate 96 1) [] = Inr encoded
     \<and> createMessageHash kec 1 43113 9999999999999999999
           (replicate 20 0) (replicate 32 0) (replicate 96 1) [] = Inr (kec encoded)
     \<and> length (kec encoded) = 32"
    using createMessageHash_keccak_of_encoding
      [of 1 43113 9999999999999999999 "replicate 20 0" "replicate 32 0" "replicate 96 1" "[]" kec]
      k
    by simp
  then show ?thesis unfolding kec_def .
qed

section \<open>Properties of address derivation\<close>

lemma le_bytes_numeral:
  "le_bytes n (numeral k) = word_of_nat (n mod 256) # le_bytes (n div 256) (pred_numeral k)"
proof -
  have "numeral k = Suc (pred_numeral k)" by (rule numeral_eq_Suc)
  then show ?thesis by (simp only: le_bytes.simps)
qed

lemma toArrayLike_Inr:
  "toArrayLike x k = Inr bs \<Longrightarrow> bs = le_bytes (nat \<bar>x\<bar>) k \<and> \<bar>x\<bar> < 256 ^ k"
  by (auto simp: toArrayLike_def Let_def nat_less_iff split: if_splits)

lemma validateChainId_Inr: "validateChainId c = Inr u \<longleftrightarrow> 0 \<le> c"
  by (simp add: validateChainId_def)

lemma validateTxId_Inr: "validateTxId t = Inr u \<longleftrightarrow> 0 \<le> t"
  by (simp add: validateTxId_def)

lemma getGatewayPda_ok:
  "0 \<le> c \<Longrightarrow> c < 2 ^ 64 \<Longrightarrow>
   getGatewayPda fpa pid c = Inr (fpa [bytes_of_string ''gateway'', le_bytes (nat c) 8] pid)"
  by (simp add: getGatewayPda_def validateChainId_def thenE_def CHAIN_ID_BYTES_def
      toArrayLike_fits)

lemma getGatewayPda_Inr:
  "getGatewayPda fpa pid c = Inr addr \<Longrightarrow>
   addr = fpa [bytes_of_string ''gateway'', le_bytes (nat c) 8] pid \<and> 0 \<le> c \<and> c < 2 ^ 64"
  by (auto simp: getGatewayPda_def validateChainId_def thenE_def CHAIN_ID_BYTES_def
      toArrayLike_def Let_def split: if_splits)

lemma discriminant_of_type:
  "registryTypeToDiscriminant (registryTypeName rt)
   = Inr (case rt of Via \<Rightarrow> 0 | Chain \<Rightarrow> 1 | Project \<Rightarrow> 2)"
  by (cases rt) (simp_all add: registryTypeToDiscriminant_def)

lemma discriminant_values:
  "registryTypeToDiscriminant ''via'' = Inr 0"
  "registryTypeToDiscriminant ''chain'' = Inr 1"
  "registryTypeToDiscriminant ''project'' = Inr 2"
  by (simp_all add: registryTypeToDiscriminant_def)

lemma getSignerRegistryPda_ok:
  "0 \<le> c \<Longrightarrow> c < 2 ^ 64 \<Longrightarrow>
   getSignerRegistryPda fpa pid rt c =
   Inr (fpa [bytes_of_string ''signer_registry'',
             [case rt of Via \<Rightarrow> 0 | Chain \<Rightarrow> 1 | Project \<Rightarrow> 2],
             le_bytes (nat c) 8] pid)"
  by (cases rt)
    (simp_all add: getSignerRegistryPda_def validateChainId_def thenE_def CHAIN_ID_BYTES_def
      toArrayLike_fits discriminant_values)

lemma getSignerRegistryPda_Inr:
  "getSignerRegistryPda fpa pid rt c = Inr addr \<Longrightarrow>
   addr = fpa [bytes_of_string ''signer_registry'',
               [case rt of Via \<Rightarrow> 0 | Chain \<Rightarrow> 1 | Project \<Rightarrow> 2],
               le_bytes (nat c) 8] pid \<and> 0 \<le> c \<and> c < 2 ^ 64"
  by (cases rt)
    (auto simp: getSignerRegistryPda_def validateChainId_def thenE_def CHAIN_ID_BYTES_def
      toArrayLike_def Let_def discriminant_values split: if_splits)

lemma getCounterPda_ok:
  "0 \<le> c \<Longrightarrow> c < 2 ^ 64 \<Longrightarrow>
   getCounterPda fpa pid c = Inr (fpa [bytes_of_string ''counter'', le_bytes (nat c) 8] pid)"
  by (simp add: getCounterPda_def validateChainId_def thenE_def CHAIN_ID_BYTES_def
      toArrayLike_fits)

lemma getTxIdPda_ok:
  "0 \<le> c \<Longrightarrow> c < 2 ^ 64 \<Longrightarrow> 0 \<le> t \<Longrightarrow> t < 2 ^ 128 \<Longrightarrow>
   getTxIdPda fpa pid c t =
   Inr (fpa [bytes_of_string ''tx'', le_bytes (nat c) 8, le_bytes (nat t) 16] pid)"
  by (simp add: getTxIdPda_def validateChainId_def validateTxId_def thenE_def
      CHAIN_ID_BYTES_def TX_ID_BYTES_def toArrayLike_fits)

lemma getTxIdPda_Inr:
  "getTxIdPda fpa pid c t = Inr addr \<Longrightarrow>
   addr = fpa [bytes_of_string ''tx'', le_bytes (nat c) 8, le_bytes (nat t) 16] pid
   \<and> 0 \<le> c \<and> c < 2 ^ 64 \<and> 0 \<le> t \<and> t < 2 ^ 128"
  by (auto simp: getTxIdPda_def validateChainId_def validateTxId_def thenE_def
      CHAIN_ID_BYTES_def TX_ID_BYTES_def toArrayLike_def Let_def split: if_splits)

lemma BN_le_le_bytes: "0 \<le> x \<Longrightarrow> x < 256 ^ k \<Longrightarrow> BN_le (le_bytes (nat x) k) = x"
  by (simp add: BN_le_def le_value_le_bytes nat_less_iff)

text \<open>
  Claim C9. For every chain id below \<open>2^64\<close> and transaction id below \<open>2^128\<close> (neither
  negative) and every registry type, the resolvers hand the derivation function exactly the
  seeds of the grammar: \<open>gateway\<close> and the chain id in 8 little-endian bytes; \<open>signer_registry\<close>,
  one byte 0, 1 or 2 for via, chain or project, and the chain id in 8 bytes; \<open>tx\<close>, the
  source chain id in 8 bytes and the transaction id in 16 bytes. Whenever a resolver
  returns an address at all, it is the one derived from these seeds, and equal inputs give
  equal results.
\<close>

theorem address_seed_grammar:
  fixes fpa :: "buffer list \<Rightarrow> 'pk \<Rightarrow> 'pk"
  shows
  "(0 \<le> chainId \<and> chainId < 2 ^ 64 \<longrightarrow>
      getGatewayPda fpa pid chainId
        = Inr (fpa [bytes_of_string ''gateway'', le_bytes (nat chainId) 8] pid)
      \<and> getSignerRegistryPda fpa pid Via chainId
        = Inr (fpa [bytes_of_string ''signer_registry'', [0], le_bytes (nat chainId) 8] pid)
      \<and> getSignerRegistryPda fpa pid Chain chainId
        = Inr (fpa [bytes_of_string ''signer_registry'', [1], le_bytes (nat chainId) 8] pid)
      \<and> getSignerRegistryPda fpa pid Project chainId
        = Inr (fpa [bytes_of_string ''signer_registry'', [2], le_bytes (nat chainId) 8] pid)
      \<and> length (le_bytes (nat chainId) 8) = 8 \<and> BN_le (le_bytes (nat chainId) 8) = chainId)
   \<and> (0 \<le> chainId \<and> chainId < 2 ^ 64 \<and> 0 \<le> tx \<and> tx < 2 ^ 128 \<longrightarrow>
      getTxIdPda fpa pid chainId tx
        = Inr (fpa [bytes_of_string ''tx'', le_bytes (nat chainId) 8, le_bytes (nat tx) 16] pid)
      \<and> length (le_bytes (nat tx) 16) = 16 \<and> BN_le (le_bytes (nat tx) 16) = tx)
   \<and> (\<forall>addr. getGatewayPda fpa pid chainId = Inr addr \<longrightarrow>
        addr = fpa [bytes_of_string ''gateway'', le_bytes (nat chainId) 8] pid)
   \<and> (\<forall>rt addr. getSignerRegistryPda fpa pid rt chainId = Inr addr \<longrightarrow>
        addr = fpa [bytes_of_string ''signer_registry'',
                    [case rt of Via \<Rightarrow> 0 | Chain \<Rightarrow> 1 | Project \<Rightarrow> 2],
                    le_bytes (nat chainId) 8] pid)
   \<and> (\<forall>addr. getTxIdPda fpa pid chainId tx = Inr addr \<longrightarrow>
        addr = fpa [bytes_of_string ''tx'', le_bytes (nat chainId) 8, le_bytes (nat tx) 16] pid)
   \<and> (\<forall>chainId' tx' rt rt'. chainId' = chainId \<and> tx' = tx \<and> rt' = rt \<longrightarrow>
        getGatewayPda fpa pid chainId' = getGatewayPda fpa pid chainId
        \<and> getSignerRegistryPda fpa pid rt' chainId' = getSignerRegistryPda fpa pid rt chainId
        \<and> getTxIdPda fpa pid chainId' tx' = getTxIdPda fpa pid chainId tx)"
proof -
  have a: "0 \<le> chainId \<and> chainId < 2 ^ 64 \<longrightarrow>
      getGatewayPda fpa pid chainId
        = Inr (fpa [bytes_of_string ''gateway'', le_bytes (nat chainId) 8] pid)
      \<and> getSignerRegistryPda fpa pid Via chainId
        = Inr (fpa [bytes_of_string ''signer_registry'', [0], le_bytes (nat chainId) 8] pid)
      \<and> getSignerRegistryPda fpa pid Chain chainId
        = Inr (fpa [bytes_of_string ''signer_registry'', [1], le_bytes (nat chainId) 8] pid)
      \<and> getSignerRegistryPda fpa pid Project chainId
        = Inr (fpa [bytes_of_string ''signer_registry'', [2], le_bytes (nat chainId) 8] pid)
      \<and> length (le_bytes (nat chainId) 8) = 8 \<and> BN_le (le_bytes (nat chainId) 8) = chainId"
    using getSignerRegistryPda_ok [of chainId fpa pid] BN_le_le_bytes [of chainId 8]
    by (simp add: getGatewayPda_ok)
  have b: "0 \<le> chainId \<and> chainId < 2 ^ 64 \<and> 0 \<le> tx \<and> tx < 2 ^ 128 \<longrightarrow>
      getTxIdPda fpa pid chainId tx
        = Inr (fpa [bytes_of_string ''tx'', le_bytes (nat chainId) 8, le_bytes (nat tx) 16] pid)
      \<and> length (le_bytes (nat tx) 16) = 16 \<and> BN_le (le_bytes (nat tx) 16) = tx"
    using BN_le_le_bytes [of tx 16] by (simp add: getTxIdPda_ok)
  from a b show ?thesis
    using getGatewayPda_Inr [of fpa pid chainId] getSignerRegistryPda_Inr [of fpa pid _ chainId]
      getTxIdPda_Inr [of fpa pid chainId tx]
    by blast
qed

theorem address_seed_grammar_witness:
  "getGatewayPda (\<lambda>seeds program. seeds @ program) [] 43113
     = Inr [[103, 97, 116, 101, 119, 97, 121], [105, 168, 0, 0, 0, 0, 0, 0]]
   \<and> getSignerRegistryPda (\<lambda>seeds program. seeds @ program) [] Via 43113
     = Inr [bytes_of_string ''signer_registry'', [0], [105, 168, 0, 0, 0, 0, 0, 0]]
   \<and> getSignerRegistryPda (\<lambda>seeds program. seeds @ program) [] Chain 43113
     = Inr [bytes_of_string ''signer_registry'', [1], [105, 168, 0, 0, 0, 0, 0, 0]]
   \<and> getSignerRegistryPda (\<lambda>seeds program. seeds @ program) [] Project 43113
     = Inr [bytes_of_string ''signer_registry'', [2], [105, 168, 0, 0, 0, 0, 0, 0]]
   \<and> getTxIdPda (\<lambda>seeds program. seeds @ program) [] 43113 258
     = Inr [[116, 120], [105, 168, 0, 0, 0, 0, 0, 0],
            [2, 1, 0, 0, 0, 0, 0, 0, 0, 0, 0, 0, 0, 0, 0, 0]]"
proof -
  let ?F = "\<lambda>(seeds :: buffer list) (program :: buffer list). seeds @ program"
  have e1: "le_bytes 43113 8 = [105, 168, 0, 0, 0, 0, 0, 0]"
    by (simp add: le_bytes_numeral)
  have e2: "le_bytes 258 16 = [2, 1, 0, 0, 0, 0, 0, 0, 0, 0, 0, 0, 0, 0, 0, 0]"
    by (simp add: le_bytes_numeral)
  have e3: "bytes_of_string ''gateway'' = [103, 97, 116, 101, 119, 97, 121]"
    "bytes_of_string ''tx'' = [116, 120]"
    by (simp_all add: bytes_of_string_def)
  have n: "nat (43113 :: int) = 43113" "nat (258 :: int) = 258" by simp_all
  have r: "(0 :: int) \<le> 43113 \<and> (43113 :: int) < 2 ^ 64 \<and> (0 :: int) \<le> 258 \<and> (258 :: int) < 2 ^ 128"
    by simp
  from address_seed_grammar [of 43113 ?F "[]" 258] r
  have "getGatewayPda ?F [] 43113
          = Inr (?F [bytes_of_string ''gateway'', le_bytes (nat 43113) 8] [])
      \<and> getSignerRegistryPda ?F [] Via 43113
          = Inr (?F [bytes_of_string ''signer_registry'', [0], le_bytes (nat 43113) 8] [])
      \<and> getSignerRegistryPda ?F [] Chain 43113
          = Inr (?F [bytes_of_string ''signer_registry'', [1], le_bytes (nat 43113) 8] [])
      \<and> getSignerRegistryPda ?F [] Project 43113
          = Inr (?F [bytes_of_string ''signer_registry'', [2], le_bytes (nat 43113) 8] [])
      \<and> getTxIdPda ?F [] 43113 258
          = Inr (?F [bytes_of_string ''tx'', le_bytes (nat 43113) 8, le_bytes (nat 258) 16] [])"
    by blast
  then show ?thesis
    by (simp only: n e1 e2 e3 append_Nil2)
qed

subsection \<open>The decoded-message address\<close>

lemma decoded_seed_lengths_differ:
  fixes sdk :: "'pk ViaLabsSDK"
  assumes "deriveDecodedMessagePda (findProgramAddressSync sdk) tx client = Inr helper"
  shows "\<exists>internal. clientAccounts sdk tx (Some (client # others))
             = Inr (Some internal,
                    Some (findProgramAddressSync sdk [bytes_of_string ''client_config''] client),
                    Some client)
           \<and> helper = findProgramAddressSync sdk
                        [bytes_of_string ''decoded'', le_bytes (nat tx) 8] client
           \<and> internal = findProgramAddressSync sdk
                        [bytes_of_string ''decoded'', le_bytes (nat tx) 16] client
           \<and> le_bytes (nat tx) 8 \<noteq> le_bytes (nat tx) 16"
proof -
  from assms have t: "0 \<le> tx" "tx < 2 ^ 64"
    and h: "helper = findProgramAddressSync sdk
                        [bytes_of_string ''decoded'', le_bytes (nat tx) 8] client"
    by (auto simp: deriveDecodedMessagePda_def validateTxId_def thenE_def toArrayLike_def
        Let_def split: if_splits)
  from t have "toArrayLike tx 16 = Inr (le_bytes (nat tx) 16)"
    by (intro toArrayLike_fits) simp_all
  then have "clientAccounts sdk tx (Some (client # others))
             = Inr (Some (findProgramAddressSync sdk
                        [bytes_of_string ''decoded'', le_bytes (nat tx) 16] client),
                    Some (findProgramAddressSync sdk [bytes_of_string ''client_config''] client),
                    Some client)"
    by (simp add: clientAccounts_def thenE_def Let_def)
  moreover have "length (le_bytes (nat tx) 8) \<noteq> length (le_bytes (nat tx) 16)" by simp
  then have "le_bytes (nat tx) 8 \<noteq> le_bytes (nat tx) 16" by metis
  ultimately show ?thesis using h by simp
qed

text \<open>
  Claim C10 holds that the exported helper \<open>deriveDecodedMessagePda\<close> and the derivation
  inside \<open>processMessageWithSignaturesV0\<close> give the same address. Evaluated in the example
  environment, where an address shows its seeds: for transaction id 1 the helper passes the
  id in 8 bytes and the internal derivation in 16; for transaction id \<open>2^64\<close> the helper
  fails while the internal derivation succeeds.
\<close>

theorem decodedMessagePda_derivations_differ:
  "deriveDecodedMessagePda (findProgramAddressSync exampleSDK) 1 [bytes_of_string ''client'']
     = Inr [bytes_of_string ''decoded'', [1, 0, 0, 0, 0, 0, 0, 0], bytes_of_string ''client'']
   \<and> clientAccounts exampleSDK 1 (Some [[bytes_of_string ''client'']])
     = Inr (Some [bytes_of_string ''decoded'',
                  [1, 0, 0, 0, 0, 0, 0, 0, 0, 0, 0, 0, 0, 0, 0, 0],
                  bytes_of_string ''client''],
            Some [bytes_of_string ''client_config'', bytes_of_string ''client''],
            Some [bytes_of_string ''client''])
   \<and> deriveDecodedMessagePda (findProgramAddressSync exampleSDK) (2 ^ 64)
        [bytes_of_string ''client'']
     = Inl (Error ''byte array longer than desired length'')
   \<and> clientAccounts exampleSDK (2 ^ 64) (Some [[bytes_of_string ''client'']])
     = Inr (Some [bytes_of_string ''decoded'',
                  [0, 0, 0, 0, 0, 0, 0, 0, 1, 0, 0, 0, 0, 0, 0, 0],
                  bytes_of_string ''client''],
            Some [bytes_of_string ''client_config'', bytes_of_string ''client''],
            Some [bytes_of_string ''client''])"
proof -
  have e: "le_bytes (Suc 0) 8 = [1, 0, 0, 0, 0, 0, 0, 0]"
    "le_bytes (Suc 0) 16 = [1, 0, 0, 0, 0, 0, 0, 0, 0, 0, 0, 0, 0, 0, 0, 0]"
    "le_bytes 18446744073709551616 16 = [0, 0, 0, 0, 0, 0, 0, 0, 1, 0, 0, 0, 0, 0, 0, 0]"
    by (simp_all add: le_bytes_numeral)
  have t: "toArrayLike 1 8 = Inr (le_bytes (Suc 0) 8)"
    "toArrayLike 1 16 = Inr (le_bytes (Suc 0) 16)"
    "toArrayLike 18446744073709551616 8 = Inl (Error ''byte array longer than desired length'')"
    "toArrayLike 18446744073709551616 16 = Inr (le_bytes 18446744073709551616 16)"
    by (simp_all add: toArrayLike_def)
  show ?thesis
    by (simp add: deriveDecodedMessagePda_def clientAccounts_def validateTxId_def thenE_def
        exampleSDK_def t e)
qed

section \<open>Properties of the retry wrapper\<close>

lemma retryLoop_past_cap:
  "maxRetries < attempt \<Longrightarrow>
   retryLoop name operation maxRetries attempt lastError =
   (Inl (Error (name @ '' failed after '' @ string_of_nat maxRetries @ '' attempts: ''
                @ (case lastError of None \<Rightarrow> ''undefined'' | Some e \<Rightarrow> messageOrError e))), [])"
  by (subst retryLoop.simps) simp

lemma retryLoop_success:
  "attempt \<le> maxRetries \<Longrightarrow> operation attempt = (Inr v, evs) \<Longrightarrow>
   retryLoop name operation maxRetries attempt lastError = (Inr v, evs)"
  by (subst retryLoop.simps) simp

lemma isNonRetryable_message_read:
  "isNonRetryable err \<Longrightarrow> messageReadError err = None"
  by (cases err) (simp_all add: isNonRetryable_def messageReadError_def)

lemma retryLoop_type_error:
  "attempt \<le> maxRetries \<Longrightarrow> operation attempt = (Inl err, evs) \<Longrightarrow>
   messageReadError err = Some typeError \<Longrightarrow>
   retryLoop name operation maxRetries attempt lastError = (Inl typeError, evs)"
  by (subst retryLoop.simps) simp

lemma retryLoop_fatal:
  "attempt \<le> maxRetries \<Longrightarrow> operation attempt = (Inl err, evs) \<Longrightarrow> isNonRetryable err \<Longrightarrow>
   retryLoop name operation maxRetries attempt lastError =
   (Inl (Error (name @ '' failed: '' @ messageOrError err)), evs)"
  by (subst retryLoop.simps) (simp add: isNonRetryable_message_read)

lemma retryLoop_retry:
  "attempt < maxRetries \<Longrightarrow> operation attempt = (Inl err, evs) \<Longrightarrow>
   messageReadError err = None \<and> \<not> isNonRetryable err \<Longrightarrow>
   retryLoop name operation maxRetries attempt lastError =
   (fst (retryLoop name operation maxRetries (Suc attempt) (Some err)),
    evs @ [Slept (1000 * 2 ^ (attempt - 1))]
    @ snd (retryLoop name operation maxRetries (Suc attempt) (Some err)))"
  by (subst retryLoop.simps) (simp add: Let_def)

lemma retryLoop_last:
  "operation maxRetries = (Inl err, evs) \<Longrightarrow>
   messageReadError err = None \<and> \<not> isNonRetryable err \<Longrightarrow>
   retryLoop name operation maxRetries maxRetries lastError =
   (Inl (Error (name @ '' failed after '' @ string_of_nat maxRetries @ '' attempts: ''
                @ messageOrError err)), evs)"
  by (subst retryLoop.simps) (simp add: Let_def retryLoop_past_cap)








text \<open>
  A rejection with \<open>null\<close> or \<open>undefined\<close> is outside that policy: reading its message
  raises a type error inside the catch block, which ends the loop after that run, without
  a sleep and without the wrapper's own failure text.
\<close>

lemma retryLoop_type_error_at:
  assumes "a \<le> k" "k \<le> maxRetries"
    and "\<And>j. a \<le> j \<Longrightarrow> j < k \<Longrightarrow>
           \<exists>e. fst (operation j) = Inl e \<and> messageReadError e = None \<and> \<not> isNonRetryable e"
    and "fst (operation k) = Inl err" "messageReadError err = Some typeError"
  shows "retryLoop name operation maxRetries a lastError =
         (Inl typeError,
          concat (map (\<lambda>j. snd (operation j) @ [Slept (1000 * 2 ^ (j - 1))]) [a..<k])
          @ snd (operation k))"
  using assms
proof (induction "k - a" arbitrary: a lastError)
  case 0
  then have "a = k" by simp
  moreover have "operation k = (Inl err, snd (operation k))"
    using "0.prems"(4) by (cases "operation k") simp
  ultimately show ?case
    using "0.prems" retryLoop_type_error [of k maxRetries operation err "snd (operation k)"]
    by simp
next
  case (Suc n)
  then have lt: "a < k" by simp
  with Suc.prems obtain e where e: "fst (operation a) = Inl e"
    "messageReadError e = None \<and> \<not> isNonRetryable e"
    by (meson le_refl)
  then have op: "operation a = (Inl e, snd (operation a))" by (cases "operation a") simp
  have ih: "retryLoop name operation maxRetries (Suc a) (Some e) =
         (Inl typeError,
          concat (map (\<lambda>j. snd (operation j) @ [Slept (1000 * 2 ^ (j - 1))]) [Suc a..<k])
          @ snd (operation k))"
    using Suc.hyps(2) lt Suc.prems by (intro Suc.hyps(1)) auto
  have "a < maxRetries" using lt Suc.prems(2) by simp
  from retryLoop_retry [where operation = operation and maxRetries = maxRetries and err = e
      and attempt = a and evs = "snd (operation a)" and name = name and lastError = lastError]
    this op e(2) ih lt
  show ?case by (simp add: upt_conv_Cons)
qed

lemma executeWithRetry_rejection_with_null:
  "executeWithRetry ''processMessage'' (\<lambda>n. (Inl ThrownNull, [V0Submission []])) 3
   = ((Inl (Error (''Cannot read properties of null (reading '' @ [CHR 0x27] @ ''message''
                   @ [CHR 0x27] @ '')'')) :: error + string),
      [V0Submission ([] :: nat instruction list)])"
  using retryLoop_type_error_at
    [where a = 1 and k = 1 and maxRetries = 3 and err = ThrownNull
       and operation = "\<lambda>n. ((Inl ThrownNull :: error + string),
                              [V0Submission ([] :: nat instruction list)])"
       and name = "''processMessage''" and lastError = None]
  by (simp add: executeWithRetry_def messageReadError_def)

lemma executeWithRetry_rejection_with_undefined:
  "executeWithRetry ''processMessage'' (\<lambda>n. (Inl ThrownUndefined, [V0Submission []])) 3
   = ((Inl (Error (''Cannot read properties of undefined (reading '' @ [CHR 0x27]
                   @ ''message'' @ [CHR 0x27] @ '')'')) :: error + string),
      [V0Submission ([] :: nat instruction list)])"
  using retryLoop_type_error_at
    [where a = 1 and k = 1 and maxRetries = 3 and err = ThrownUndefined
       and operation = "\<lambda>n. ((Inl ThrownUndefined :: error + string),
                              [V0Submission ([] :: nat instruction list)])"
       and name = "''processMessage''" and lastError = None]
  by (simp add: executeWithRetry_def messageReadError_def)

section \<open>Properties of the submission operations\<close>

lemma ed25519Instructions_Inr:
  "ed25519Instructions sigs h = Inr ins \<Longrightarrow> ins = map (verification h) sigs"
  by (induction sigs arbitrary: ins)
    (auto simp: thenE_def createEd25519Instruction_def split: sum.splits if_splits)

lemma ed25519Instructions_ok:
  "\<forall>s \<in> set sigs. length (signature s) = 64 \<Longrightarrow>
   ed25519Instructions sigs h = Inr (map (verification h) sigs)"
  by (induction sigs) (simp_all add: thenE_def createEd25519Instruction_def)

lemma retryLoop_events:
  "set (snd (retryLoop name operation maxRetries a lastError))
   \<subseteq> (\<Union>j. set (snd (operation j))) \<union> range Slept"
proof (induction "Suc maxRetries - a" arbitrary: a lastError)
  case 0
  then have "maxRetries < a" by simp
  then show ?case by (simp add: retryLoop_past_cap)
next
  case (Suc n)
  then have le: "a \<le> maxRetries" by simp
  have ih: "set (snd (retryLoop name operation maxRetries (Suc a) l))
            \<subseteq> (\<Union>j. set (snd (operation j))) \<union> range Slept" for l
    using Suc.hyps(2) by (intro Suc.hyps(1)) simp
  have own: "set (snd (operation a)) \<subseteq> (\<Union>j. set (snd (operation j))) \<union> range Slept"
    by auto
  obtain r evs where op: "operation a = (r, evs)" by (cases "operation a")
  show ?case
  proof (cases r)
    case (Inr v)
    with op le own show ?thesis by (simp add: retryLoop_success)
  next
    case (Inl err)
    show ?thesis
    proof (cases "messageReadError err")
      case (Some typeError)
      with op Inl le own show ?thesis by (simp add: retryLoop_type_error)
    next
      case None
      show ?thesis
      proof (cases "isNonRetryable err")
        case True
        with op Inl le own show ?thesis by (simp add: retryLoop_fatal)
      next
        case False
        with None have nr: "messageReadError err = None \<and> \<not> isNonRetryable err" by simp
        show ?thesis
        proof (cases "a < maxRetries")
          case True
          from retryLoop_retry [where operation = operation and attempt = a and err = err
              and evs = evs and maxRetries = maxRetries and name = name
              and lastError = lastError] True op Inl nr
          show ?thesis using ih [of "Some err"] own op by auto
        next
          case False
          with le have "a = maxRetries" by simp
          with retryLoop_last [where operation = operation and err = err and evs = evs
              and maxRetries = maxRetries and name = name and lastError = lastError]
            op Inl nr own
          show ?thesis by simp
        qed
      qed
    qed
  qed
qed

lemma retryLoop_first_run:
  assumes "a \<le> maxRetries"
  shows "set (snd (operation a)) \<subseteq> set (snd (retryLoop name operation maxRetries a lastError))"
proof -
  obtain r evs where op: "operation a = (r, evs)" by (cases "operation a")
  show ?thesis
  proof (cases r)
    case (Inr v)
    with op assms show ?thesis by (simp add: retryLoop_success)
  next
    case (Inl err)
    show ?thesis
    proof (cases "messageReadError err")
      case (Some typeError)
      with op Inl assms show ?thesis by (simp add: retryLoop_type_error)
    next
      case None
      show ?thesis
      proof (cases "isNonRetryable err")
        case True
        with op Inl assms show ?thesis by (simp add: retryLoop_fatal)
      next
        case False
        with None have nr: "messageReadError err = None \<and> \<not> isNonRetryable err" by simp
        show ?thesis
        proof (cases "a < maxRetries")
          case True
          from retryLoop_retry [where operation = operation and attempt = a and err = err
              and evs = evs and maxRetries = maxRetries and name = name
              and lastError = lastError] True op Inl nr
          show ?thesis using op by auto
        next
          case False
          with assms have "a = maxRetries" by simp
          with retryLoop_last [where operation = operation and err = err and evs = evs
              and maxRetries = maxRetries and name = name and lastError = lastError]
            op Inl nr
          show ?thesis by simp
        qed
      qed
    qed
  qed
qed

lemma retryLoop_failure_text:
  "fst (retryLoop name operation maxRetries a lastError) = Inl e \<Longrightarrow>
   (\<exists>rest. e = Error (name @ '' failed'' @ rest))
   \<or> (\<exists>thrown. messageReadError thrown = Some e)"
proof (induction "Suc maxRetries - a" arbitrary: a lastError)
  case 0
  then have "maxRetries < a" by simp
  with "0.prems" show ?case by (auto simp: retryLoop_past_cap)
next
  case (Suc n)
  then have le: "a \<le> maxRetries" by simp
  have ih: "fst (retryLoop name operation maxRetries (Suc a) l) = Inl e \<Longrightarrow>
            (\<exists>rest. e = Error (name @ '' failed'' @ rest))
            \<or> (\<exists>thrown. messageReadError thrown = Some e)" for l
    using Suc.hyps(2) by (intro Suc.hyps(1)) simp_all
  obtain r evs where op: "operation a = (r, evs)" by (cases "operation a")
  show ?case
  proof (cases r)
    case (Inr v)
    with op le Suc.prems show ?thesis by (simp add: retryLoop_success)
  next
    case (Inl err)
    show ?thesis
    proof (cases "messageReadError err")
      case (Some typeError)
      with op Inl le Suc.prems have "e = typeError" by (simp add: retryLoop_type_error)
      with Some show ?thesis by blast
    next
      case None
      show ?thesis
      proof (cases "isNonRetryable err")
        case True
        with op Inl le Suc.prems show ?thesis by (auto simp: retryLoop_fatal)
      next
        case False
        with None have nr: "messageReadError err = None \<and> \<not> isNonRetryable err" by simp
        show ?thesis
        proof (cases "a < maxRetries")
          case True
          from retryLoop_retry [where operation = operation and attempt = a and err = err
              and evs = evs and maxRetries = maxRetries and name = name
              and lastError = lastError] True op Inl nr Suc.prems
          show ?thesis using ih [of "Some err"] by simp
        next
          case False
          with le have "a = maxRetries" by simp
          with retryLoop_last [where operation = operation and err = err and evs = evs
              and maxRetries = maxRetries and name = name and lastError = lastError]
            op Inl nr Suc.prems
          show ?thesis by auto
        qed
      qed
    qed
  qed
qed

lemma executeV0Transaction_submissions:
  "V0Submission ins \<in> set (snd (executeV0Transaction sdk name instructions n)) \<Longrightarrow>
   ins = instructions"
  using retryLoop_events
    [of name "\<lambda>k. (sendV0 sdk k instructions, [V0Submission instructions])" n 1 None]
  by (auto simp: executeV0Transaction_def executeWithRetry_def split: if_splits)

lemma executeV0Transaction_runs:
  "lookupTableLoaded sdk \<Longrightarrow> 1 \<le> n \<Longrightarrow>
   V0Submission instructions \<in> set (snd (executeV0Transaction sdk name instructions n))"
  using retryLoop_first_run
    [of 1 n "\<lambda>k. (sendV0 sdk k instructions, [V0Submission instructions])" name None]
  by (auto simp: executeV0Transaction_def executeWithRetry_def)

lemma executeV0Transaction_failure_text:
  "fst (executeV0Transaction sdk name instructions n) = Inl e \<Longrightarrow>
   e = Error ''Lookup table not loaded. Call loadLookupTable() first.''
   \<or> (\<exists>rest. e = Error (name @ '' failed'' @ rest))
   \<or> (\<exists>thrown. messageReadError thrown = Some e)"
  using retryLoop_failure_text
    [of name "\<lambda>k. (sendV0 sdk k instructions, [V0Submission instructions])" n 1 None e]
  by (auto simp: executeV0Transaction_def executeWithRetry_def split: if_splits)

lemma createMessageHash_valid:
  assumes "0 \<le> tx" "tx < 2 ^ 128" "0 \<le> src" "src < 2 ^ 64" "0 \<le> dst" "dst < 2 ^ 64"
    and "length a \<le> 64" "length b \<le> 64" "length c \<le> 1024" "length e \<le> 1024"
  shows "\<exists>h. createMessageHash kec tx src dst a b c e = Inr h"
  using encodeViaMessage_valid [OF assms] by (auto simp: createMessageHash_eq)

lemma createTxPdaAccounts_ok:
  assumes "0 \<le> tx" "tx < 2 ^ 128" "0 \<le> src" "src < 2 ^ 64"
  shows "\<exists>accounts. createTxPdaAccounts sdk tx src = Inr accounts"
  using assms by (simp add: createTxPdaAccounts_def thenE_def getTxIdPda_ok getCounterPda_ok)

lemma processMessageAccounts_ok:
  assumes "0 \<le> tx" "tx < 2 ^ 128" "0 \<le> src" "src < 2 ^ 64" "0 \<le> dst" "dst < 2 ^ 64"
  shows "\<exists>accounts. processMessageAccounts sdk tx src dst ipr = Inr accounts"
  using assms
  by (simp add: processMessageAccounts_def thenE_def Let_def getTxIdPda_ok getGatewayPda_ok
      getSignerRegistryPda_ok)

lemma processMessageV0Accounts_ok:
  assumes "0 \<le> tx" "tx < 2 ^ 128" "0 \<le> src" "src < 2 ^ 64" "0 \<le> dst" "dst < 2 ^ 64"
  shows "\<exists>accounts. processMessageV0Accounts sdk tx src dst ipr d cc gas = Inr accounts"
  using assms
  by (simp add: processMessageV0Accounts_def thenE_def Let_def getTxIdPda_ok getGatewayPda_ok
      getSignerRegistryPda_ok)

lemma clientAccounts_ok:
  assumes "0 \<le> tx" "tx < 2 ^ 128"
  shows "\<exists>d cc cp. clientAccounts sdk tx ra = Inr (d, cc, cp)"
  using assms
  by (auto simp: clientAccounts_def thenE_def Let_def toArrayLike_fits
      split: option.splits list.splits)

text \<open>The method builder: what it returns, and which account lists it accepts.\<close>

lemma anchorInstruction_Inr:
  "anchorInstruction idl name args accounts remaining = Inr i \<Longrightarrow>
   i = ProgramInstruction name args accounts remaining"
  by (auto simp: anchorInstruction_def thenE_def split: sum.splits)

lemma anchorInstruction_createTxPda:
  "anchorInstruction createTxPda_idl name args accounts remaining
   = Inr (ProgramInstruction name args accounts remaining)"
  by (simp add: anchorInstruction_def thenE_def createTxPda_idl_def accountIsSet_def
      split: option.splits)

lemma thenE_Inr:
  "thenE r f = Inr y \<longleftrightarrow> (\<exists>v. r = Inr v \<and> f v = Inr y)"
  by (cases r) (simp_all add: thenE_def)

lemma processMessageAccounts_shape:
  assumes "processMessageAccounts sdk tx src dst ipr = Inr accounts"
  shows "\<exists>gateway txIdPda viaRegistry chainRegistry gasConfig gasPool projectRegistry.
           accounts =
             [(''gateway'', Some gateway), (''txIdPda'', Some txIdPda),
              (''viaRegistry'', Some viaRegistry), (''chainRegistry'', Some chainRegistry),
              (''relayer'', Some (walletPublicKey sdk)),
              (''instructions'', Some (SYSVAR_INSTRUCTIONS_PUBKEY sdk)),
              (''systemProgram'', Some (systemProgramId sdk)),
              (''gasHandlerProgram'', Some (gasHandlerProgramId sdk)),
              (''gasConfig'', Some gasConfig), (''clientGasConfig'', None),
              (''gasPool'', Some gasPool), (''projectRegistry'', projectRegistry)]"
  using assms unfolding processMessageAccounts_def Let_def thenE_Inr by blast

lemma processMessageAccounts_rejected:
  assumes "processMessageAccounts sdk tx src dst ipr = Inr accounts"
  shows "anchorInstruction processMessage_idl name args accounts remaining
         = Inl (Error ''Account `decodedMessagePda` not provided.'')"
proof -
  from processMessageAccounts_shape [OF assms] obtain gateway txIdPda viaRegistry
      chainRegistry gasConfig gasPool projectRegistry
    where "accounts =
             [(''gateway'', Some gateway), (''txIdPda'', Some txIdPda),
              (''viaRegistry'', Some viaRegistry), (''chainRegistry'', Some chainRegistry),
              (''relayer'', Some (walletPublicKey sdk)),
              (''instructions'', Some (SYSVAR_INSTRUCTIONS_PUBKEY sdk)),
              (''systemProgram'', Some (systemProgramId sdk)),
              (''gasHandlerProgram'', Some (gasHandlerProgramId sdk)),
              (''gasConfig'', Some gasConfig), (''clientGasConfig'', None),
              (''gasPool'', Some gasPool), (''projectRegistry'', projectRegistry)]"
    by blast
  then show ?thesis
    by (simp add: anchorInstruction_def thenE_def processMessage_idl_def accountIsSet_def
        split: option.splits)
qed

lemma gasHandlerAccounts_names:
  "\<exists>g1 g2 g3 g4. gasHandlerAccounts sdk dst cp
     = [(''gasHandlerProgram'', g1), (''gasConfig'', g2), (''clientGasConfig'', g3),
        (''gasPool'', g4)]"
  by (simp add: gasHandlerAccounts_def Let_def split: sum.splits option.splits bool.splits)

lemma processMessageV0Accounts_shape:
  assumes "processMessageV0Accounts sdk tx src dst ipr d cc gas = Inr accounts"
  shows "\<exists>gateway txIdPda viaRegistry chainRegistry projectRegistry.
           accounts =
             [(''gateway'', Some gateway), (''txIdPda'', Some txIdPda),
              (''viaRegistry'', Some viaRegistry), (''chainRegistry'', Some chainRegistry),
              (''projectRegistry'', projectRegistry),
              (''relayer'', Some (walletPublicKey sdk)),
              (''decodedMessagePda'', d), (''clientConfig'', cc),
              (''instructions'', Some (SYSVAR_INSTRUCTIONS_PUBKEY sdk)),
              (''systemProgram'', Some (systemProgramId sdk))] @ gas"
  using assms unfolding processMessageV0Accounts_def Let_def thenE_Inr by blast

lemma processMessageV0Accounts_validated:
  assumes "processMessageV0Accounts sdk tx src dst ipr d cc (gasHandlerAccounts sdk dst cp)
           = Inr accounts"
  shows "anchorInstruction processMessage_idl name args accounts remaining
         = (if d = None then Inl (Error ''Account `decodedMessagePda` not provided.'')
            else Inr (ProgramInstruction name args accounts remaining))"
proof -
  obtain g1 g2 g3 g4 where g: "gasHandlerAccounts sdk dst cp
     = [(''gasHandlerProgram'', g1), (''gasConfig'', g2), (''clientGasConfig'', g3),
        (''gasPool'', g4)]"
    using gasHandlerAccounts_names by blast
  from processMessageV0Accounts_shape [OF assms] obtain gateway txIdPda viaRegistry
      chainRegistry projectRegistry
    where "accounts =
             [(''gateway'', Some gateway), (''txIdPda'', Some txIdPda),
              (''viaRegistry'', Some viaRegistry), (''chainRegistry'', Some chainRegistry),
              (''projectRegistry'', projectRegistry),
              (''relayer'', Some (walletPublicKey sdk)),
              (''decodedMessagePda'', d), (''clientConfig'', cc),
              (''instructions'', Some (SYSVAR_INSTRUCTIONS_PUBKEY sdk)),
              (''systemProgram'', Some (systemProgramId sdk))]
             @ [(''gasHandlerProgram'', g1), (''gasConfig'', g2), (''clientGasConfig'', g3),
                (''gasPool'', g4)]"
    unfolding g by blast
  then show ?thesis
    by (simp add: anchorInstruction_def thenE_def processMessage_idl_def accountIsSet_def
        split: option.splits)
qed

lemma clientAccounts_absent:
  "ra = None \<or> ra = Some [] \<Longrightarrow> clientAccounts sdk tx ra = Inr (None, None, None)"
  by (auto simp: clientAccounts_def)

lemma clientAccounts_present:
  assumes "0 \<le> tx" "tx < 2 ^ 128"
  shows "\<exists>d cc. clientAccounts sdk tx (Some (client # rest)) = Inr (Some d, cc, Some client)"
  using assms by (auto simp: clientAccounts_def thenE_def Let_def toArrayLike_fits)

lemma clientAccounts_decoded:
  "clientAccounts sdk tx ra = Inr (d, cc, cp) \<Longrightarrow>
   (d = None) = (ra = None \<or> ra = Some [])"
  by (auto simp: clientAccounts_def thenE_def Let_def
      split: option.splits list.splits sum.splits)



lemma processMessageWithSignatures_fails:
  "\<exists>err. fst (processMessageWithSignatures sdk tx src dst a b c e sigs ipr) = Inl err"
  by (auto simp: processMessageWithSignatures_def orFail_def Let_def
      processMessageAccounts_rejected split: sum.splits)

lemma createTxPdaWithSignaturesV0_sent:
  assumes "V0Submission ins
           \<in> set (snd (createTxPdaWithSignaturesV0 sdk tx src dst a b c e sigs))"
  shows "\<exists>h accounts. createMessageHash (keccak sdk) tx src dst a b c e = Inr h
           \<and> ins = map (verification h) sigs
                   @ [ProgramInstruction ''createTxPda'' (viaMessage tx src dst a b c e)
                        accounts []]"
  using assms
  by (auto simp: createTxPdaWithSignaturesV0_def orFail_def Let_def
      anchorInstruction_createTxPda split: sum.splits if_splits
      dest!: ed25519Instructions_Inr executeV0Transaction_submissions)

lemma processMessageWithSignaturesV0_sent:
  assumes "V0Submission ins
           \<in> set (snd (processMessageWithSignaturesV0 sdk tx src dst a b c e sigs ipr ra))"
  shows "\<exists>h accounts client rest.
           createMessageHash (keccak sdk) tx src dst a b c e = Inr h
           \<and> ra = Some (client # rest)
           \<and> ins = map (verification h) sigs
                   @ [ProgramInstruction ''processMessage'' (viaMessage tx src dst a b c e)
                        accounts (client # rest)]"
proof -
  from assms have pre: "\<not> length sigs > MAX_SIGNATURES_V0" "length sigs \<noteq> 0"
    by (auto simp: processMessageWithSignaturesV0_def split: if_splits)
  from assms pre obtain h where
    h: "createMessageHash (keccak sdk) tx src dst a b c e = Inr h"
    by (cases "createMessageHash (keccak sdk) tx src dst a b c e")
      (auto simp: processMessageWithSignaturesV0_def orFail_def)
  from assms pre h obtain vs where vs: "ed25519Instructions sigs h = Inr vs"
    by (cases "ed25519Instructions sigs h")
      (auto simp: processMessageWithSignaturesV0_def orFail_def)
  from assms pre h vs obtain d cc cp where cl: "clientAccounts sdk tx ra = Inr (d, cc, cp)"
    by (cases "clientAccounts sdk tx ra")
      (auto simp: processMessageWithSignaturesV0_def orFail_def)
  from assms pre h vs cl obtain accounts where
    acc: "processMessageV0Accounts sdk tx src dst ipr d cc (gasHandlerAccounts sdk dst cp)
          = Inr accounts"
    by (cases "processMessageV0Accounts sdk tx src dst ipr d cc (gasHandlerAccounts sdk dst cp)")
      (auto simp: processMessageWithSignaturesV0_def orFail_def Let_def)
  note v = processMessageV0Accounts_validated [OF acc]
  have d: "d \<noteq> None"
  proof
    assume "d = None"
    with assms pre h vs cl acc v show False
      by (simp add: processMessageWithSignaturesV0_def orFail_def Let_def)
  qed
  with clientAccounts_decoded [OF cl] obtain client rest where ra: "ra = Some (client # rest)"
    by (cases ra) (auto simp: neq_Nil_conv)
  from assms pre h vs cl acc v d ra
  have "V0Submission ins
        \<in> set (snd (executeV0Transaction sdk ''processMessage''
                      (vs @ [ProgramInstruction ''processMessage''
                               (viaMessage tx src dst a b c e) accounts (client # rest)]) 3))"
    by (simp add: processMessageWithSignaturesV0_def orFail_def Let_def)
  from executeV0Transaction_submissions [OF this] ed25519Instructions_Inr [OF vs] h ra
  show ?thesis by blast
qed



lemma processMessageWithSignatures_rejected:
  assumes "0 \<le> tx" "tx < 2 ^ 128" "0 \<le> src" "src < 2 ^ 64" "0 \<le> dst" "dst < 2 ^ 64"
    and "length a \<le> 64" "length b \<le> 64" "length c \<le> 1024" "length e \<le> 1024"
    and "\<forall>s \<in> set sigs. length (signature s) = 64"
  shows "processMessageWithSignatures sdk tx src dst a b c e sigs ipr
         = (Inl (Error ''Account `decodedMessagePda` not provided.''), [])"
proof -
  from createMessageHash_valid [OF assms(1-10)] obtain h
    where h: "createMessageHash (keccak sdk) tx src dst a b c e = Inr h" by blast
  from processMessageAccounts_ok [OF assms(1-6)] obtain accounts
    where acc: "processMessageAccounts sdk tx src dst ipr = Inr accounts" by blast
  show ?thesis
    using h acc ed25519Instructions_ok [OF assms(11), of h]
      processMessageAccounts_rejected [OF acc]
    by (simp add: processMessageWithSignatures_def orFail_def Let_def)
qed

lemma createTxPdaWithSignaturesV0_runs:
  assumes "0 \<le> tx" "tx < 2 ^ 128" "0 \<le> src" "src < 2 ^ 64" "0 \<le> dst" "dst < 2 ^ 64"
    and "length a \<le> 64" "length b \<le> 64" "length c \<le> 1024" "length e \<le> 1024"
    and "\<forall>s \<in> set sigs. length (signature s) = 64"
    and "sigs \<noteq> []" "length sigs \<le> 3" "lookupTableLoaded sdk"
  shows "\<exists>ins. V0Submission ins
               \<in> set (snd (createTxPdaWithSignaturesV0 sdk tx src dst a b c e sigs))"
proof -
  from createMessageHash_valid [OF assms(1-10)] obtain h
    where h: "createMessageHash (keccak sdk) tx src dst a b c e = Inr h" by blast
  from createTxPdaAccounts_ok [OF assms(1-4)] obtain accounts
    where acc: "createTxPdaAccounts sdk tx src = Inr accounts" by blast
  let ?ins = "map (verification h) sigs
              @ [ProgramInstruction ''createTxPda'' (viaMessage tx src dst a b c e) accounts []]"
  have "V0Submission ?ins \<in> set (snd (executeV0Transaction sdk ''createTxPda'' ?ins 3))"
    using assms(14) by (intro executeV0Transaction_runs) simp_all
  then have "V0Submission ?ins
             \<in> set (snd (createTxPdaWithSignaturesV0 sdk tx src dst a b c e sigs))"
    using h acc ed25519Instructions_ok [OF assms(11), of h] assms(12,13)
    by (simp add: createTxPdaWithSignaturesV0_def orFail_def Let_def MAX_SIGNATURES_V0_def
        anchorInstruction_createTxPda)
  then show ?thesis by blast
qed

lemma processMessageWithSignaturesV0_runs:
  assumes "0 \<le> tx" "tx < 2 ^ 128" "0 \<le> src" "src < 2 ^ 64" "0 \<le> dst" "dst < 2 ^ 64"
    and "length a \<le> 64" "length b \<le> 64" "length c \<le> 1024" "length e \<le> 1024"
    and "\<forall>s \<in> set sigs. length (signature s) = 64"
    and "sigs \<noteq> []" "length sigs \<le> 3" "lookupTableLoaded sdk"
  shows "\<exists>ins. V0Submission ins
               \<in> set (snd (processMessageWithSignaturesV0 sdk tx src dst a b c e sigs ipr
                             (Some (client # rest))))"
proof -
  from createMessageHash_valid [OF assms(1-10)] obtain h
    where h: "createMessageHash (keccak sdk) tx src dst a b c e = Inr h" by blast
  from clientAccounts_present [OF assms(1,2), where sdk = sdk and client = client
      and rest = rest] obtain d cc
    where cl: "clientAccounts sdk tx (Some (client # rest)) = Inr (Some d, cc, Some client)"
    by blast
  from processMessageV0Accounts_ok [OF assms(1-6)] obtain accounts
    where acc: "processMessageV0Accounts sdk tx src dst ipr (Some d) cc
                  (gasHandlerAccounts sdk dst (Some client)) = Inr accounts" by blast
  note v = processMessageV0Accounts_validated [OF acc]
  let ?ins = "map (verification h) sigs
              @ [ProgramInstruction ''processMessage'' (viaMessage tx src dst a b c e) accounts
                   (client # rest)]"
  have "V0Submission ?ins \<in> set (snd (executeV0Transaction sdk ''processMessage'' ?ins 3))"
    using assms(14) by (intro executeV0Transaction_runs) simp_all
  then have "V0Submission ?ins
             \<in> set (snd (processMessageWithSignaturesV0 sdk tx src dst a b c e sigs ipr
                           (Some (client # rest))))"
    using h cl acc v ed25519Instructions_ok [OF assms(11), of h] assms(12,13)
    by (simp add: processMessageWithSignaturesV0_def orFail_def Let_def MAX_SIGNATURES_V0_def)
  then show ?thesis by blast
qed

lemma processMessageWithSignaturesV0_rejected:
  assumes "0 \<le> tx" "tx < 2 ^ 128" "0 \<le> src" "src < 2 ^ 64" "0 \<le> dst" "dst < 2 ^ 64"
    and "length a \<le> 64" "length b \<le> 64" "length c \<le> 1024" "length e \<le> 1024"
    and "\<forall>s \<in> set sigs. length (signature s) = 64"
    and "sigs \<noteq> []" "length sigs \<le> 3"
    and "ra = None \<or> ra = Some []"
  shows "processMessageWithSignaturesV0 sdk tx src dst a b c e sigs ipr ra
         = (Inl (Error ''Account `decodedMessagePda` not provided.''),
            [GetAccountInfo (gasHandlerProgramId sdk)])"
proof -
  from createMessageHash_valid [OF assms(1-10)] obtain h
    where h: "createMessageHash (keccak sdk) tx src dst a b c e = Inr h" by blast
  note cl = clientAccounts_absent [OF assms(14), of sdk tx]
  from processMessageV0Accounts_ok [OF assms(1-6)] obtain accounts
    where acc: "processMessageV0Accounts sdk tx src dst ipr None None
                  (gasHandlerAccounts sdk dst None) = Inr accounts" by blast
  note v = processMessageV0Accounts_validated [OF acc]
  show ?thesis
    using h cl acc v ed25519Instructions_ok [OF assms(11), of h] assms(12,13)
    by (simp add: processMessageWithSignaturesV0_def orFail_def Let_def MAX_SIGNATURES_V0_def)
qed

subsection \<open>Order of the verification instructions\<close>



subsection \<open>The signature cap of the versioned variants\<close>

text \<open>No failure of a later stage can be taken for a failure of the signature count.\<close>

lemma toArrayLike_not_count:
  "toArrayLike x k = Inl err \<Longrightarrow>
   err \<noteq> tooManySignatures n \<and> err \<noteq> Error ''At least one signature is required''"
  by (auto simp: toArrayLike_def Let_def tooManySignatures_def split: if_splits)

lemma createMessageHash_not_count:
  "createMessageHash kec tx src dst a b c e = Inl err \<Longrightarrow>
   err \<noteq> tooManySignatures n \<and> err \<noteq> Error ''At least one signature is required''"
  by (auto simp: createMessageHash_def encodeViaMessage_def serializeViaMessage_def thenE_def
      encodeLengthPrefixed_def writeUInt32LE_def toArrayLike_def Let_def tooManySignatures_def
      split: if_splits sum.splits)

lemma ed25519Instructions_not_count:
  "ed25519Instructions sigs h = Inl err \<Longrightarrow>
   err \<noteq> tooManySignatures n \<and> err \<noteq> Error ''At least one signature is required''"
  by (induction sigs)
    (auto simp: thenE_def createEd25519Instruction_def tooManySignatures_def
      split: sum.splits if_splits)

lemma getGatewayPda_not_count:
  "getGatewayPda fpa pid x = Inl err \<Longrightarrow>
   err \<noteq> tooManySignatures n \<and> err \<noteq> Error ''At least one signature is required''"
  by (auto simp: getGatewayPda_def validateChainId_def thenE_def toArrayLike_def Let_def
      tooManySignatures_def split: if_splits sum.splits)

lemma getCounterPda_not_count:
  "getCounterPda fpa pid x = Inl err \<Longrightarrow>
   err \<noteq> tooManySignatures n \<and> err \<noteq> Error ''At least one signature is required''"
  by (auto simp: getCounterPda_def validateChainId_def thenE_def toArrayLike_def Let_def
      tooManySignatures_def split: if_splits sum.splits)

lemma getTxIdPda_not_count:
  "getTxIdPda fpa pid x t = Inl err \<Longrightarrow>
   err \<noteq> tooManySignatures n \<and> err \<noteq> Error ''At least one signature is required''"
  by (auto simp: getTxIdPda_def validateChainId_def validateTxId_def thenE_def toArrayLike_def
      Let_def tooManySignatures_def split: if_splits sum.splits)

lemma getSignerRegistryPda_not_count:
  "getSignerRegistryPda fpa pid rt x = Inl err \<Longrightarrow>
   err \<noteq> tooManySignatures n \<and> err \<noteq> Error ''At least one signature is required''"
  by (cases rt)
    (auto simp: getSignerRegistryPda_def validateChainId_def thenE_def toArrayLike_def Let_def
      discriminant_values tooManySignatures_def split: if_splits sum.splits)

lemma createTxPdaAccounts_not_count:
  "createTxPdaAccounts sdk tx src = Inl err \<Longrightarrow>
   err \<noteq> tooManySignatures n \<and> err \<noteq> Error ''At least one signature is required''"
  by (auto simp: createTxPdaAccounts_def thenE_def split: sum.splits
      dest: getTxIdPda_not_count getCounterPda_not_count)

lemma clientAccounts_not_count:
  "clientAccounts sdk tx ra = Inl err \<Longrightarrow>
   err \<noteq> tooManySignatures n \<and> err \<noteq> Error ''At least one signature is required''"
  by (auto simp: clientAccounts_def thenE_def Let_def
      split: sum.splits option.splits list.splits dest: toArrayLike_not_count)

lemma processMessageV0Accounts_not_count:
  "processMessageV0Accounts sdk tx src dst ipr d cc gas = Inl err \<Longrightarrow>
   err \<noteq> tooManySignatures n \<and> err \<noteq> Error ''At least one signature is required''"
  by (auto simp: processMessageV0Accounts_def thenE_def Let_def split: sum.splits if_splits
      dest: getTxIdPda_not_count getGatewayPda_not_count getSignerRegistryPda_not_count)

lemma anchorInstruction_not_count:
  "anchorInstruction idl name args accounts remaining = Inl err \<Longrightarrow>
   err \<noteq> tooManySignatures n \<and> err \<noteq> Error ''At least one signature is required''"
proof -
  have "validateAccounts idl accounts = Inl err \<Longrightarrow>
        err \<noteq> tooManySignatures n \<and> err \<noteq> Error ''At least one signature is required''"
    by (induction idl) (auto simp: tooManySignatures_def split: if_splits)
  then show "anchorInstruction idl name args accounts remaining = Inl err \<Longrightarrow>
             err \<noteq> tooManySignatures n \<and> err \<noteq> Error ''At least one signature is required''"
    by (auto simp: anchorInstruction_def thenE_def split: sum.splits)
qed

lemma messageReadError_not_count:
  "messageReadError thrown = Some err \<Longrightarrow>
   err \<noteq> tooManySignatures n \<and> err \<noteq> Error ''At least one signature is required''"
  by (cases thrown) (auto simp: messageReadError_def tooManySignatures_def)

lemma executeV0Transaction_not_count:
  assumes "fst (executeV0Transaction sdk name ins k) = Inl err"
    and "name = ''createTxPda'' \<or> name = ''processMessage''"
  shows "err \<noteq> tooManySignatures n \<and> err \<noteq> Error ''At least one signature is required''"
proof -
  from executeV0Transaction_failure_text [OF assms(1)]
  consider "err = Error ''Lookup table not loaded. Call loadLookupTable() first.''"
    | rest where "err = Error (name @ '' failed'' @ rest)"
    | thrown where "messageReadError thrown = Some err"
    by blast
  then show ?thesis
  proof cases
    case 1
    then show ?thesis by (simp add: tooManySignatures_def)
  next
    case 2
    with assms(2) show ?thesis by (auto simp: tooManySignatures_def)
  next
    case 3
    then show ?thesis by (rule messageReadError_not_count)
  qed
qed

lemma createTxPdaWithSignaturesV0_not_count:
  assumes "length sigs \<le> 3" "sigs \<noteq> []"
    and "fst (createTxPdaWithSignaturesV0 sdk tx src dst a b c e sigs) = Inl err"
  shows "err \<noteq> tooManySignatures n \<and> err \<noteq> Error ''At least one signature is required''"
  using assms
  by (auto simp: createTxPdaWithSignaturesV0_def orFail_def Let_def MAX_SIGNATURES_V0_def
      anchorInstruction_createTxPda split: sum.splits
      dest: createMessageHash_not_count ed25519Instructions_not_count
        createTxPdaAccounts_not_count executeV0Transaction_not_count)

lemma processMessageWithSignaturesV0_not_count:
  assumes "length sigs \<le> 3" "sigs \<noteq> []"
    and "fst (processMessageWithSignaturesV0 sdk tx src dst a b c e sigs ipr ra) = Inl err"
  shows "err \<noteq> tooManySignatures n \<and> err \<noteq> Error ''At least one signature is required''"
  using assms
  by (auto simp: processMessageWithSignaturesV0_def orFail_def Let_def MAX_SIGNATURES_V0_def
      split: sum.splits prod.splits
      dest: createMessageHash_not_count ed25519Instructions_not_count
        clientAccounts_not_count processMessageV0Accounts_not_count
        anchorInstruction_not_count executeV0Transaction_not_count)

text \<open>
  Claim C7. In both versioned operations a list of four or more signatures fails at once
  with the too-many-signatures error, nothing having been built, queried or submitted. A
  list of exactly three passes the count checks: no failure of the operation is a
  signature-count failure. For a valid message with three 64-byte signatures and a loaded
  lookup table, \<open>createTxPdaWithSignaturesV0\<close> submits the four instructions (three
  verifications and the main one), and so does \<open>processMessageWithSignaturesV0\<close> when the
  remaining accounts name a client program; without one it gets past the count checks as
  far as the account query, and then fails in the method builder for want of
  \<open>decodedMessagePda\<close>.
\<close>

theorem compact_variant_signature_cap:
  fixes sdk :: "'pk ViaLabsSDK"
  shows
  "(4 \<le> length sigs \<longrightarrow>
      createTxPdaWithSignaturesV0 sdk tx src dst a b c e sigs
        = (Inl (tooManySignatures (length sigs)), [])
      \<and> processMessageWithSignaturesV0 sdk tx src dst a b c e sigs ipr ra
        = (Inl (tooManySignatures (length sigs)), []))
   \<and> (length sigs = 3 \<longrightarrow>
      (\<forall>n. fst (createTxPdaWithSignaturesV0 sdk tx src dst a b c e sigs)
             \<noteq> Inl (tooManySignatures n)
           \<and> fst (processMessageWithSignaturesV0 sdk tx src dst a b c e sigs ipr ra)
             \<noteq> Inl (tooManySignatures n))
      \<and> fst (createTxPdaWithSignaturesV0 sdk tx src dst a b c e sigs)
          \<noteq> Inl (Error ''At least one signature is required'')
      \<and> fst (processMessageWithSignaturesV0 sdk tx src dst a b c e sigs ipr ra)
          \<noteq> Inl (Error ''At least one signature is required'')
      \<and> (0 \<le> tx \<and> tx < 2 ^ 128 \<and> 0 \<le> src \<and> src < 2 ^ 64 \<and> 0 \<le> dst \<and> dst < 2 ^ 64
          \<and> length a \<le> 64 \<and> length b \<le> 64 \<and> length c \<le> 1024 \<and> length e \<le> 1024
          \<and> (\<forall>s \<in> set sigs. length (signature s) = 64) \<and> lookupTableLoaded sdk
        \<longrightarrow> (\<exists>ins. length ins = 4 \<and> V0Submission ins
                   \<in> set (snd (createTxPdaWithSignaturesV0 sdk tx src dst a b c e sigs)))
            \<and> (\<forall>client rest. ra = Some (client # rest)
                 \<longrightarrow> (\<exists>ins. length ins = 4 \<and> V0Submission ins
                        \<in> set (snd (processMessageWithSignaturesV0 sdk tx src dst a b c e sigs
                                      ipr ra))))
            \<and> (ra = None \<or> ra = Some []
                 \<longrightarrow> processMessageWithSignaturesV0 sdk tx src dst a b c e sigs ipr ra
                     = (Inl (Error ''Account `decodedMessagePda` not provided.''),
                        [GetAccountInfo (gasHandlerProgramId sdk)]))))"
proof (intro conjI impI allI)
  assume "4 \<le> length sigs"
  then show "createTxPdaWithSignaturesV0 sdk tx src dst a b c e sigs
        = (Inl (tooManySignatures (length sigs)), [])"
    and "processMessageWithSignaturesV0 sdk tx src dst a b c e sigs ipr ra
        = (Inl (tooManySignatures (length sigs)), [])"
    by (simp_all add: createTxPdaWithSignaturesV0_def processMessageWithSignaturesV0_def
        MAX_SIGNATURES_V0_def)
next
  fix n assume "length sigs = 3"
  then have s: "length sigs \<le> 3" "sigs \<noteq> []" by auto
  show "fst (createTxPdaWithSignaturesV0 sdk tx src dst a b c e sigs)
        \<noteq> Inl (tooManySignatures n)"
    using createTxPdaWithSignaturesV0_not_count [OF s] by blast
  show "fst (processMessageWithSignaturesV0 sdk tx src dst a b c e sigs ipr ra)
        \<noteq> Inl (tooManySignatures n)"
    using processMessageWithSignaturesV0_not_count [OF s] by blast
next
  assume "length sigs = 3"
  then have s: "length sigs \<le> 3" "sigs \<noteq> []" by auto
  show "fst (createTxPdaWithSignaturesV0 sdk tx src dst a b c e sigs)
        \<noteq> Inl (Error ''At least one signature is required'')"
    using createTxPdaWithSignaturesV0_not_count [OF s] by blast
  show "fst (processMessageWithSignaturesV0 sdk tx src dst a b c e sigs ipr ra)
        \<noteq> Inl (Error ''At least one signature is required'')"
    using processMessageWithSignaturesV0_not_count [OF s] by blast
next
  assume l: "length sigs = 3"
    and v: "0 \<le> tx \<and> tx < 2 ^ 128 \<and> 0 \<le> src \<and> src < 2 ^ 64 \<and> 0 \<le> dst \<and> dst < 2 ^ 64
          \<and> length a \<le> 64 \<and> length b \<le> 64 \<and> length c \<le> 1024 \<and> length e \<le> 1024
          \<and> (\<forall>s \<in> set sigs. length (signature s) = 64) \<and> lookupTableLoaded sdk"
  from l have s: "length sigs \<le> 3" "sigs \<noteq> []" by auto
  from v s obtain ins where
    i: "V0Submission ins \<in> set (snd (createTxPdaWithSignaturesV0 sdk tx src dst a b c e sigs))"
    using createTxPdaWithSignaturesV0_runs [of tx src dst a b c e sigs sdk] by blast
  from createTxPdaWithSignaturesV0_sent [OF i] l have "length ins = 4" by auto
  with i show "\<exists>ins. length ins = 4 \<and> V0Submission ins
                   \<in> set (snd (createTxPdaWithSignaturesV0 sdk tx src dst a b c e sigs))"
    by blast
next
  fix client rest
  assume l: "length sigs = 3"
    and v: "0 \<le> tx \<and> tx < 2 ^ 128 \<and> 0 \<le> src \<and> src < 2 ^ 64 \<and> 0 \<le> dst \<and> dst < 2 ^ 64
          \<and> length a \<le> 64 \<and> length b \<le> 64 \<and> length c \<le> 1024 \<and> length e \<le> 1024
          \<and> (\<forall>s \<in> set sigs. length (signature s) = 64) \<and> lookupTableLoaded sdk"
    and ra: "ra = Some (client # rest)"
  from l have s: "length sigs \<le> 3" "sigs \<noteq> []" by auto
  from v s obtain ins where
    i: "V0Submission ins
        \<in> set (snd (processMessageWithSignaturesV0 sdk tx src dst a b c e sigs ipr ra))"
    unfolding ra
    using processMessageWithSignaturesV0_runs
      [where tx = tx and src = src and dst = dst and a = a and b = b and c = c and e = e
         and sigs = sigs and sdk = sdk and ipr = ipr and client = client and rest = rest]
    by blast
  from processMessageWithSignaturesV0_sent [OF i] l have "length ins = 4" by auto
  with i show "\<exists>ins. length ins = 4 \<and> V0Submission ins
                   \<in> set (snd (processMessageWithSignaturesV0 sdk tx src dst a b c e sigs
                                 ipr ra))"
    by blast
next
  assume l: "length sigs = 3"
    and v: "0 \<le> tx \<and> tx < 2 ^ 128 \<and> 0 \<le> src \<and> src < 2 ^ 64 \<and> 0 \<le> dst \<and> dst < 2 ^ 64
          \<and> length a \<le> 64 \<and> length b \<le> 64 \<and> length c \<le> 1024 \<and> length e \<le> 1024
          \<and> (\<forall>s \<in> set sigs. length (signature s) = 64) \<and> lookupTableLoaded sdk"
    and ra: "ra = None \<or> ra = Some []"
  from l have s: "sigs \<noteq> []" "length sigs \<le> 3" by auto
  from v s ra show "processMessageWithSignaturesV0 sdk tx src dst a b c e sigs ipr ra
                     = (Inl (Error ''Account `decodedMessagePda` not provided.''),
                        [GetAccountInfo (gasHandlerProgramId sdk)])"
    by (intro processMessageWithSignaturesV0_rejected) simp_all
qed

theorem compact_variant_signature_cap_witness:
  "createTxPdaWithSignaturesV0 exampleSDK 1 2 3 [] [] [] []
     (replicate 4 \<lparr>signature = replicate 64 1, signer = [bytes_of_string ''A'']\<rparr>)
   = (Inl (tooManySignatures 4), [])
   \<and> processMessageWithSignaturesV0 exampleSDK 1 2 3 [] [] [] []
     (replicate 4 \<lparr>signature = replicate 64 1, signer = [bytes_of_string ''A'']\<rparr>) False
     (Some [[bytes_of_string ''client'']])
   = (Inl (tooManySignatures 4), [])
   \<and> tooManySignatures 4
   = Error (''Too many signatures for V0 transaction: 4 provided, maximum 3 supported. ''
            @ ''V0 transactions have a 1232 byte limit, and each Ed25519 instruction uses ''
            @ ''~200 bytes.'')
   \<and> (\<exists>ins. length ins = 4 \<and> V0Submission ins
          \<in> set (snd (createTxPdaWithSignaturesV0 exampleSDK 1 2 3 [] [] [] []
               (replicate 3 \<lparr>signature = replicate 64 1, signer = [bytes_of_string ''A'']\<rparr>))))
   \<and> (\<exists>ins. length ins = 4 \<and> V0Submission ins
          \<in> set (snd (processMessageWithSignaturesV0 exampleSDK 1 2 3 [] [] [] []
               (replicate 3 \<lparr>signature = replicate 64 1, signer = [bytes_of_string ''A'']\<rparr>)
               False (Some [[bytes_of_string ''client'']]))))
   \<and> processMessageWithSignaturesV0 exampleSDK 1 2 3 [] [] [] []
        (replicate 3 \<lparr>signature = replicate 64 1, signer = [bytes_of_string ''A'']\<rparr>)
        False None
      = (Inl (Error ''Account `decodedMessagePda` not provided.''),
         [GetAccountInfo [bytes_of_string ''gas'']])"
proof -
  let ?A = "\<lparr>signature = replicate 64 (1 :: byte), signer = [bytes_of_string ''A'']\<rparr>"
  let ?ra = "Some [[bytes_of_string ''client'']]"
  have tab: "lookupTableLoaded exampleSDK" by (simp add: exampleSDK_def)
  have gas: "gasHandlerProgramId exampleSDK = [bytes_of_string ''gas'']"
    by (simp add: exampleSDK_def)
  have m: "tooManySignatures 4
   = Error (''Too many signatures for V0 transaction: 4 provided, maximum 3 supported. ''
            @ ''V0 transactions have a 1232 byte limit, and each Ed25519 instruction uses ''
            @ ''~200 bytes.'')"
    by (simp add: tooManySignatures_def MAX_SIGNATURES_V0_def string_of_nat.simps)
  note T4 = compact_variant_signature_cap
    [where sigs = "replicate 4 ?A" and sdk = exampleSDK and tx = 1 and src = 2 and dst = 3
       and a = "[]" and b = "[]" and c = "[]" and e = "[]" and ipr = False and ra = ?ra]
  note T3 = compact_variant_signature_cap
    [where sigs = "replicate 3 ?A" and sdk = exampleSDK and tx = 1 and src = 2 and dst = 3
       and a = "[]" and b = "[]" and c = "[]" and e = "[]" and ipr = False and ra = ?ra]
  note T0 = compact_variant_signature_cap
    [where sigs = "replicate 3 ?A" and sdk = exampleSDK and tx = 1 and src = 2 and dst = 3
       and a = "[]" and b = "[]" and c = "[]" and e = "[]" and ipr = False and ra = None]
  have four: "createTxPdaWithSignaturesV0 exampleSDK 1 2 3 [] [] [] [] (replicate 4 ?A)
                = (Inl (tooManySignatures 4), [])
              \<and> processMessageWithSignaturesV0 exampleSDK 1 2 3 [] [] [] [] (replicate 4 ?A)
                  False ?ra = (Inl (tooManySignatures 4), [])"
    using T4 by simp
  have three: "(\<exists>ins. length ins = 4 \<and> V0Submission ins
          \<in> set (snd (createTxPdaWithSignaturesV0 exampleSDK 1 2 3 [] [] [] []
                        (replicate 3 ?A))))
   \<and> (\<exists>ins. length ins = 4 \<and> V0Submission ins
          \<in> set (snd (processMessageWithSignaturesV0 exampleSDK 1 2 3 [] [] [] []
                        (replicate 3 ?A) False ?ra)))"
    using T3 tab by simp
  have none: "processMessageWithSignaturesV0 exampleSDK 1 2 3 [] [] [] [] (replicate 3 ?A)
                False None
              = (Inl (Error ''Account `decodedMessagePda` not provided.''),
                 [GetAccountInfo [bytes_of_string ''gas'']])"
    using T0 tab gas by simp
  from four three none m show ?thesis by (simp only:)
qed

subsection \<open>Empty signature lists\<close>

text \<open>
  Claim C8 holds that every submission operation fails on an empty signature list before
  the main instruction is built or submitted. Evaluated in the example environment with no
  signatures: the two versioned operations fail so, but \<open>createTxPdaWithSignatures\<close>
  builds the main instruction and submits a transaction that holds it alone.
  \<open>processMessageWithSignatures\<close> has no check of the list either; it fails, as it does
  for every signature list, when the method builder rejects its accounts.
\<close>

theorem createTxPdaWithSignatures_submits_without_signatures:
  "(\<exists>accounts.
      createTxPdaWithSignatures exampleSDK 1 2 3 [] [] [] [] []
      = (Inr ''ok'',
         [InstructionBuilt
            (ProgramInstruction ''createTxPda'' (viaMessage 1 2 3 [] [] [] []) accounts []),
          SendAndConfirm
            [ProgramInstruction ''createTxPda'' (viaMessage 1 2 3 [] [] [] []) accounts []]]))
   \<and> processMessageWithSignatures exampleSDK 1 2 3 [] [] [] [] [] False
      = (Inl (Error ''Account `decodedMessagePda` not provided.''), [])
   \<and> createTxPdaWithSignaturesV0 exampleSDK 1 2 3 [] [] [] [] []
      = (Inl (Error ''At least one signature is required''), [])
   \<and> processMessageWithSignaturesV0 exampleSDK 1 2 3 [] [] [] [] [] False None
      = (Inl (Error ''At least one signature is required''), [])"
proof -
  obtain h where h: "createMessageHash (keccak exampleSDK) 1 2 3 [] [] [] [] = Inr h"
    using createMessageHash_valid [of 1 2 3 "[]" "[]" "[]" "[]" "keccak exampleSDK"] by auto
  obtain acc1 where a1: "createTxPdaAccounts exampleSDK 1 2 = Inr acc1"
    using createTxPdaAccounts_ok [of 1 2 exampleSDK] by auto
  have s: "sendAndConfirm exampleSDK = (\<lambda>transaction. Inr ''ok'')"
    by (simp add: exampleSDK_def)
  have 1: "createTxPdaWithSignatures exampleSDK 1 2 3 [] [] [] [] []
      = (Inr ''ok'',
         [InstructionBuilt
            (ProgramInstruction ''createTxPda'' (viaMessage 1 2 3 [] [] [] []) acc1 []),
          SendAndConfirm
            [ProgramInstruction ''createTxPda'' (viaMessage 1 2 3 [] [] [] []) acc1 []]])"
    using h a1 s
    by (simp add: createTxPdaWithSignatures_def orFail_def Let_def
        anchorInstruction_createTxPda)
  have 2: "processMessageWithSignatures exampleSDK 1 2 3 [] [] [] [] [] False
      = (Inl (Error ''Account `decodedMessagePda` not provided.''), [])"
    by (intro processMessageWithSignatures_rejected) simp_all
  have 3: "createTxPdaWithSignaturesV0 exampleSDK 1 2 3 [] [] [] [] []
      = (Inl (Error ''At least one signature is required''), [])"
    "processMessageWithSignaturesV0 exampleSDK 1 2 3 [] [] [] [] [] False None
      = (Inl (Error ''At least one signature is required''), [])"
    by (simp_all add: createTxPdaWithSignaturesV0_def processMessageWithSignaturesV0_def
        MAX_SIGNATURES_V0_def)
  from 1 2 3 show ?thesis by blast
qed

end
